theory Spec2Isabelle
  imports Main
begin

section \<open>Python strings\<close>

text \<open>
  A Python \<open>str\<close> is modelled as a \<open>string\<close>, one \<open>char\<close> per code point, so the model
  covers text whose code points are below 256. The few message literals of the source that
  hold a code point above 255 (a warning sign, an emoji) are carried as the bytes the source
  file has for them; no operation below inspects them.
\<close>

definition isspace :: "char \<Rightarrow> bool" where
  \<comment> \<open>\<open>str.isspace\<close> on one code point below 256: TAB..CR, FS..US, space, NEL, NBSP.\<close>
  "isspace c = (let n = (of_char c :: nat) in
     (9 \<le> n \<and> n \<le> 13) \<or> (28 \<le> n \<and> n \<le> 32) \<or> n = 133 \<or> n = 160)"

definition lstrip :: "string \<Rightarrow> string" where
  "lstrip s = dropWhile isspace s"

definition rstrip :: "string \<Rightarrow> string" where
  "rstrip s = rev (dropWhile isspace (rev s))"

definition strip :: "string \<Rightarrow> string" where
  "strip s = rstrip (lstrip s)"

definition lower_char :: "char \<Rightarrow> char" where
  \<comment> \<open>\<open>str.lower\<close> on one code point below 256: A..Z and the Latin-1 capitals (not the
      multiplication sign 215) move up by 32.\<close>
  "lower_char c = (let n = (of_char c :: nat) in
     if (65 \<le> n \<and> n \<le> 90) \<or> (192 \<le> n \<and> n \<le> 222 \<and> n \<noteq> 215)
     then char_of (n + 32) else c)"

definition lower :: "string \<Rightarrow> string" where
  "lower s = map lower_char s"

definition startswith :: "string \<Rightarrow> string \<Rightarrow> bool" where
  \<comment> \<open>\<open>s.startswith(p)\<close>\<close>
  "startswith s p = (take (length p) s = p)"

fun contains :: "string \<Rightarrow> string \<Rightarrow> bool" where
  \<comment> \<open>\<open>sub in s\<close> on strings: \<open>sub\<close> occurs in \<open>s\<close> as a contiguous block.\<close>
  "contains sub [] = (sub = [])"
| "contains sub (c # cs) = (startswith (c # cs) sub \<or> contains sub cs)"

fun split_from :: "string \<Rightarrow> string \<Rightarrow> string list" where
  \<comment> \<open>the scan of \<open>str.split()\<close>: \<open>cur\<close> is the word read so far.\<close>
  "split_from cur [] = (if cur = [] then [] else [cur])"
| "split_from cur (c # cs) =
     (if isspace c then (if cur = [] then split_from [] cs else cur # split_from [] cs)
      else split_from (cur @ [c]) cs)"

definition split :: "string \<Rightarrow> string list" where
  \<comment> \<open>\<open>s.split()\<close>: the maximal runs of non-whitespace, in order.\<close>
  "split s = split_from [] s"

fun split_on :: "char \<Rightarrow> string \<Rightarrow> string \<Rightarrow> string list" where
  \<comment> \<open>the scan of \<open>s.split(sep)\<close> for a one-character separator; empty pieces are kept.\<close>
  "split_on sep cur [] = [cur]"
| "split_on sep cur (c # cs) =
     (if c = sep then cur # split_on sep [] cs else split_on sep (cur @ [c]) cs)"

fun digits :: "nat \<Rightarrow> string" where
  "digits n = (if n < 10 then [char_of (48 + n)] else digits (n div 10) @ [char_of (48 + n mod 10)])"

definition str_int :: "int \<Rightarrow> string" where
  \<comment> \<open>how an f-string renders an \<open>int\<close>\<close>
  "str_int i = (if i < 0 then CHR ''-'' # digits (nat (- i)) else digits (nat i))"

section \<open>ai\_helper.py\<close>

subsection \<open>Quick suggestions\<close>

definition QUICK_SUGGESTIONS :: "(string \<times> string) list" where
  \<comment> \<open>the dict literal, in insertion order, which is the order \<open>items()\<close> iterates in\<close>
  "QUICK_SUGGESTIONS =
   [(''find large files'', ''find . -type f -size +100M -exec ls -lh {} '' @ [CHR 0x5C] @ '';''),
    (''disk usage'', ''du -sh */ | sort -rh | head -20''),
    (''memory usage'', ''free -h && echo '---' && ps aux --sort=-%mem | head -10''),
    (''cpu usage'', ''top -bn1 | head -20''),
    (''running processes'', ''ps aux --sort=-%cpu | head -20''),
    (''listening ports'', ''ss -tulpn''),
    (''docker running'', ''docker ps --format 'table {{.Names}}'' @ [CHR 0x09] @ ''{{.Status}}''
        @ [CHR 0x09] @ ''{{.Ports}}'' @ [CHR 0x27]),
    (''docker logs'', ''docker logs --tail 100 -f CONTAINER_NAME''),
    (''git status'', ''git status -sb''),
    (''git log'', ''git log --oneline --graph -20''),
    (''find text in files'', ''grep -rn 'SEARCH_TERM' .''),
    (''watch file changes'', ''watch -n 1 'ls -la'' @ [CHR 0x27]),
    (''system info'', ''uname -a && lsb_release -a''),
    (''network info'', ''ip addr show && echo '---' && ip route''),
    (''kill process'', ''pkill -f PROCESS_NAME  # or: kill -9 PID''),
    (''compress folder'', ''tar -czvf archive.tar.gz FOLDER/''),
    (''extract archive'', ''tar -xzvf archive.tar.gz''),
    (''file permissions'', ''chmod 755 FILE  # rwxr-xr-x''),
    (''change owner'', ''chown user:group FILE''),
    (''cron jobs'', ''crontab -l  # list | crontab -e  # edit'')]"

fun quick_loop :: "(string \<times> string) list \<Rightarrow> string \<Rightarrow> string option" where
  \<comment> \<open>the \<open>for key, command in QUICK_SUGGESTIONS.items()\<close> loop of \<open>get_quick_suggestion\<close>\<close>
  "quick_loop [] query_lower = None"
| "quick_loop ((key, command) # rest) query_lower =
     (if contains key query_lower \<or> list_all (\<lambda>word. contains word query_lower) (split key)
      then Some command else quick_loop rest query_lower)"

definition get_quick_suggestion :: "string \<Rightarrow> string option" where
  "get_quick_suggestion query = quick_loop QUICK_SUGGESTIONS (lower query)"

subsection \<open>Python values and exceptions\<close>

datatype pyobj =
    PyNone
  | PyBool bool
  | PyInt int
  | PyFloat string  \<comment> \<open>a float, carried by the text that denotes it\<close>
  | PyStr string
  | PyList "pyobj list"
  | PyDict "(string \<times> pyobj) list"  \<comment> \<open>the items of a dict, its keys distinct\<close>

datatype exn =
    TimeoutException string
  | ConnectError string
  | JSONDecodeError string
  | AttributeError string
  | TypeError string
  | KeyError string
  | IndexError string
  | OtherException string

fun str_exn :: "exn \<Rightarrow> string" where
  \<comment> \<open>\<open>str(e)\<close>: every exception carries its message\<close>
  "str_exn (TimeoutException m) = m"
| "str_exn (ConnectError m) = m"
| "str_exn (JSONDecodeError m) = m"
| "str_exn (AttributeError m) = m"
| "str_exn (TypeError m) = m"
| "str_exn (KeyError m) = m"
| "str_exn (IndexError m) = m"
| "str_exn (OtherException m) = m"

record request =
  rq_method :: string
  rq_url :: string
  rq_headers :: "(string \<times> string) list"
  rq_json :: pyobj

record response =
  status_code :: int
  aread :: "exn + string"  \<comment> \<open>\<open>(await response.aread()).decode()\<close>, or what either raises\<close>
  aiter_lines :: "string list"  \<comment> \<open>the lines the body delivers\<close>
  aiter_end :: "exn option"  \<comment> \<open>what reading past them raises, if anything\<close>

datatype proc =
    SpawnFailed exn  \<comment> \<open>\<open>subprocess.Popen\<close> raises\<close>
  | Spawned "string list" "exn + int"
    \<comment> \<open>the lines \<open>readline\<close> returns before the empty string, then what reading raises, or
        else the \<open>returncode\<close> after \<open>wait()\<close>\<close>

text \<open>
  Everything outside the program that one submission can observe: the JSON decoder, the HTTP
  client, the messages the interpreter gives its own exceptions, the file system and the
  host shell.
\<close>

record world =
  json_loads :: "string \<Rightarrow> exn + pyobj"
  stream_post :: "request \<Rightarrow> exn + response"
  no_attribute :: "pyobj \<Rightarrow> string \<Rightarrow> string"
    \<comment> \<open>the message of the AttributeError of \<open>obj.name\<close>\<close>
  not_container :: "pyobj \<Rightarrow> string"
    \<comment> \<open>the message of the TypeError of \<open>x in obj\<close>\<close>
  not_indexable :: "pyobj \<Rightarrow> string"
    \<comment> \<open>the message of the TypeError of \<open>obj["key"]\<close>\<close>
  expanduser :: "string \<Rightarrow> string"
  chdir :: "string \<Rightarrow> exn + string"
    \<comment> \<open>\<open>os.chdir(path)\<close> then \<open>os.getcwd()\<close>: what either raises, or the directory reported\<close>
  index_out_of_range :: string
    \<comment> \<open>the message of the IndexError of a list index out of range\<close>
  popen :: "string \<Rightarrow> string \<Rightarrow> proc"
    \<comment> \<open>\<open>Popen(command, shell=True, ..., cwd=cwd)\<close> and the run of the child\<close>

definition dict_get :: "world \<Rightarrow> pyobj \<Rightarrow> string \<Rightarrow> pyobj \<Rightarrow> exn + pyobj" where
  \<comment> \<open>\<open>obj.get(key, default)\<close>: only a dict has the method\<close>
  "dict_get W obj key dflt =
     (case obj of
        PyDict kvs \<Rightarrow> Inr (case map_of kvs key of None \<Rightarrow> dflt | Some v \<Rightarrow> v)
      | _ \<Rightarrow> Inl (AttributeError (no_attribute W obj ''get'')))"

definition py_in :: "world \<Rightarrow> string \<Rightarrow> pyobj \<Rightarrow> exn + bool" where
  \<comment> \<open>\<open>key in obj\<close> for a str \<open>key\<close>\<close>
  "py_in W key obj =
     (case obj of
        PyDict kvs \<Rightarrow> Inr (key \<in> set (map fst kvs))
      | PyStr s \<Rightarrow> Inr (contains key s)
      | PyList xs \<Rightarrow> Inr (PyStr key \<in> set xs)
      | _ \<Rightarrow> Inl (TypeError (not_container W obj)))"

definition getitem :: "world \<Rightarrow> pyobj \<Rightarrow> string \<Rightarrow> exn + pyobj" where
  \<comment> \<open>\<open>obj[key]\<close> for a str \<open>key\<close>\<close>
  "getitem W obj key =
     (case obj of
        PyDict kvs \<Rightarrow>
          (case map_of kvs key of None \<Rightarrow> Inl (KeyError ([CHR 0x27] @ key @ [CHR 0x27]))
           | Some v \<Rightarrow> Inr v)
      | _ \<Rightarrow> Inl (TypeError (not_indexable W obj)))"

subsection \<open>AIAssistant\<close>

definition SYSTEM_PROMPT :: string where
  "SYSTEM_PROMPT =
   ''You are a helpful Linux command-line assistant integrated into a terminal called Drey CLI.\<newline>''
   @ ''\<newline>''
   @ ''Your role is to:\<newline>''
   @ ''1. Help users find the right commands for their tasks\<newline>''
   @ ''2. Explain what commands do in simple terms\<newline>''
   @ ''3. Provide examples that users can copy and run\<newline>''
   @ ''4. Warn about potentially dangerous commands\<newline>''
   @ ''\<newline>''
   @ ''Guidelines:\<newline>''
   @ ''- Keep responses concise and terminal-friendly\<newline>''
   @ ''- Format commands in a clear way users can copy\<newline>''
   @ ''- If a task needs multiple commands, number them\<newline>''
   @ ''- Always prioritize safety - warn about rm -rf, sudo, etc.\<newline>''
   @ ''- If you're not sure, say so\<newline>''
   @ ''\<newline>''
   @ ''The user is running Ubuntu Linux. Respond in a helpful, friendly manner.''"

record AIAssistant =
  api_key :: string
  base_url :: string
  model :: string

definition AIAssistant_init :: "string \<Rightarrow> AIAssistant" where
  \<comment> \<open>\<open>__init__\<close>; the argument is \<open>os.environ.get("ANTHROPIC_API_KEY", "")\<close>\<close>
  "AIAssistant_init key =
     \<lparr>api_key = key, base_url = ''https://api.anthropic.com/v1/messages'',
      model = ''claude-sonnet-4-20250514''\<rparr>"

definition is_configured :: "AIAssistant \<Rightarrow> bool" where
  "is_configured ai = (api_key ai \<noteq> [])"

definition warning_sign :: string where
  \<comment> \<open>U+26A0 U+FE0F, as the six bytes of the source file\<close>
  "warning_sign = [CHR 0xE2, CHR 0x9A, CHR 0xA0, CHR 0xEF, CHR 0xB8, CHR 0x8F]"

definition on_event :: "world \<Rightarrow> pyobj \<Rightarrow> exn + pyobj list" where
  \<comment> \<open>the body of the \<open>try\<close> after \<open>json.loads\<close>: what one decoded event yields, or raises\<close>
  "on_event W event =
     (case dict_get W event ''type'' PyNone of
        Inl e \<Rightarrow> Inl e
      | Inr t \<Rightarrow>
          if t = PyStr ''content_block_delta'' then
            (case dict_get W event ''delta'' (PyDict []) of
               Inl e \<Rightarrow> Inl e
             | Inr delta \<Rightarrow>
                 (case py_in W ''text'' delta of
                    Inl e \<Rightarrow> Inl e
                  | Inr b \<Rightarrow>
                      if b then (case getitem W delta ''text'' of
                                   Inl e \<Rightarrow> Inl e
                                 | Inr v \<Rightarrow> Inr [v])
                      else Inr []))
          else Inr [])"

fun is_JSONDecodeError :: "exn \<Rightarrow> bool" where
  "is_JSONDecodeError (JSONDecodeError m) = True"
| "is_JSONDecodeError e = False"

fun stream_loop :: "world \<Rightarrow> exn option \<Rightarrow> string list \<Rightarrow> pyobj list \<times> exn option" where
  \<comment> \<open>\<open>async for line in response.aiter_lines()\<close>: the values yielded, and the exception
      that leaves the loop, if one does\<close>
  "stream_loop W end [] = ([], end)"
| "stream_loop W end (line # rest) =
     (if startswith line ''data: '' then
        (let data = drop 6 line in
         if data = ''[DONE]'' then ([], None)
         else
           (case json_loads W data of
              Inl e \<Rightarrow> if is_JSONDecodeError e then stream_loop W end rest else ([], Some e)
            | Inr event \<Rightarrow>
                (case on_event W event of
                   Inl e \<Rightarrow> if is_JSONDecodeError e then stream_loop W end rest else ([], Some e)
                 | Inr ys \<Rightarrow> (case stream_loop W end rest of (zs, r) \<Rightarrow> (ys @ zs, r)))))
      else stream_loop W end rest)"

fun on_exception :: "exn \<Rightarrow> pyobj list" where
  \<comment> \<open>the three \<open>except\<close> clauses of \<open>ask\<close>\<close>
  "on_exception (TimeoutException m) =
     [PyStr (warning_sign @ ''  Request timed out. Please try again.\<newline>'')]"
| "on_exception (ConnectError m) =
     [PyStr (warning_sign
        @ ''  Could not connect to AI service. Check your internet connection.\<newline>'')]"
| "on_exception e = [PyStr (warning_sign @ ''  Error: '' @ str_exn e @ ''\<newline>'')]"

definition ask_request :: "AIAssistant \<Rightarrow> string \<Rightarrow> request" where
  \<comment> \<open>the arguments of \<open>client.stream\<close>\<close>
  "ask_request ai question =
     \<lparr>rq_method = ''POST'', rq_url = base_url ai,
      rq_headers = [(''x-api-key'', api_key ai), (''anthropic-version'', ''2023-06-01''),
                    (''content-type'', ''application/json'')],
      rq_json = PyDict [(''model'', PyStr (model ai)), (''max_tokens'', PyInt 1024),
                        (''system'', PyStr SYSTEM_PROMPT), (''stream'', PyBool True),
                        (''messages'', PyList [PyDict [(''role'', PyStr ''user''),
                                                       (''content'', PyStr question)]])]\<rparr>"

definition ask :: "world \<Rightarrow> AIAssistant \<Rightarrow> string \<Rightarrow> pyobj list \<times> request list" where
  \<comment> \<open>the values the generator yields until it ends, and the requests it sent\<close>
  "ask W ai question =
     (if api_key ai = [] then
        ([PyStr (warning_sign
            @ ''  AI not configured. Set ANTHROPIC_API_KEY environment variable.\<newline>''),
          PyStr ''\<newline>To set it up:\<newline>'',
          PyStr ''  export ANTHROPIC_API_KEY='your-api-key'\<newline>'',
          PyStr ''\<newline>Get your API key from: https://console.anthropic.com/\<newline>''], [])
      else
        (let rq = ask_request ai question in
         (case stream_post W rq of
            Inl e \<Rightarrow> on_exception e
          | Inr response \<Rightarrow>
              if status_code response \<noteq> 200 then
                (case aread response of
                   Inl e \<Rightarrow> on_exception e
                 | Inr error_text \<Rightarrow>
                     [PyStr (warning_sign @ ''  API Error: '' @ str_int (status_code response)
                        @ ''\<newline>'' @ error_text @ ''\<newline>'')])
              else
                (case stream_loop W (aiter_end response) (aiter_lines response) of
                   (ys, None) \<Rightarrow> ys
                 | (ys, Some e) \<Rightarrow> ys @ on_exception e),
          [rq])))"

section \<open>main.py\<close>

subsection \<open>The command catalog\<close>

definition COMMAND_SUGGESTIONS :: "(string \<times> string list) list" where
  "COMMAND_SUGGESTIONS =
   [(''git'', [''git status'', ''git add .'', ''git commit -m '' @ [CHR 0x27, CHR 0x27],
               ''git push'', ''git pull'', ''git log --oneline'', ''git branch'',
               ''git checkout'']),
    (''docker'', [''docker ps'', ''docker ps -a'', ''docker images'', ''docker compose up -d'',
                  ''docker compose down'', ''docker logs'', ''docker exec -it'']),
    (''system'', [''htop'', ''df -h'', ''free -h'', ''uname -a'', ''uptime'', ''whoami'', ''pwd'',
                  ''ls -la'']),
    (''network'', [''ip addr'', ''ping'', ''curl'', ''wget'', ''netstat -tulpn'', ''ss -tulpn'']),
    (''files'', [''ls -la'', ''find . -name'', ''grep -r'', ''cat'', ''head'', ''tail -f'',
                 ''chmod'', ''chown'']),
    (''process'', [''ps aux'', ''kill'', ''killall'', ''top'', ''htop'', ''pgrep'', ''pkill''])]"

definition ALL_COMMANDS :: "string list" where
  \<comment> \<open>\<open>for category, commands in COMMAND_SUGGESTIONS.items(): ALL_COMMANDS.extend(commands)\<close>\<close>
  "ALL_COMMANDS = foldl (\<lambda>acc (category, commands). acc @ commands) [] COMMAND_SUGGESTIONS"

subsection \<open>The output log\<close>

datatype style =
  BoldCyan | BoldGreen | BoldRed | BoldMagenta | BoldYellow | BoldWhite | White | Yellow | Dim

datatype rich_text = Text string style  \<comment> \<open>\<open>Text(s, style=...)\<close>, one \<open>output.write\<close> each\<close>

fun style_of :: "rich_text \<Rightarrow> style" where
  "style_of (Text s st) = st"

subsection \<open>CommandInput\<close>

record CommandInput =
  input_value :: string  \<comment> \<open>\<open>self.value\<close>\<close>
  cursor_position :: nat
  history :: "string list"
  history_index :: int

definition slice_last :: "nat \<Rightarrow> 'a list \<Rightarrow> 'a list" where
  \<comment> \<open>\<open>xs[-n:]\<close> for \<open>n > 0\<close>\<close>
  "slice_last n xs = drop (length xs - n) xs"

definition load_history :: "(exn + string list) option \<Rightarrow> CommandInput \<Rightarrow> CommandInput" where
  \<comment> \<open>the argument is the file \<open>~/.bash_history\<close>: absent, or what opening and reading it
      raises, or what \<open>readlines()\<close> returns\<close>
  "load_history file ci =
     (case file of
        None \<Rightarrow> ci
      | Some (Inl e) \<Rightarrow> ci
      | Some (Inr lines) \<Rightarrow>
          ci\<lparr>history := [strip line. line \<leftarrow> slice_last 500 lines, strip line \<noteq> []]\<rparr>)"

definition CommandInput_init :: "(exn + string list) option \<Rightarrow> CommandInput" where
  "CommandInput_init file =
     load_history file \<lparr>input_value = [], cursor_position = 0, history = [], history_index = -1\<rparr>"

definition index :: "world \<Rightarrow> 'a list \<Rightarrow> int \<Rightarrow> exn + 'a" where
  \<comment> \<open>\<open>xs[i]\<close>: an index below zero is taken from the end of the list\<close>
  "index W xs i =
     (if 0 \<le> i \<and> i < int (length xs) then Inr (xs ! nat i)
      else if i < 0 \<and> - int (length xs) \<le> i then Inr (xs ! nat (int (length xs) + i))
      else Inl (IndexError (index_out_of_range W)))"

datatype key = Up | Down | OtherKey string

fun on_key :: "world \<Rightarrow> key \<Rightarrow> CommandInput \<Rightarrow> exn + CommandInput" where
  "on_key W Up ci =
     (if history ci \<noteq> [] \<and> history_index ci < int (length (history ci)) - 1 then
        (let ci1 = ci\<lparr>history_index := history_index ci + 1\<rparr> in
         case index W (history ci1) (- (history_index ci1 + 1)) of
           Inl e \<Rightarrow> Inl e
         | Inr v \<Rightarrow> Inr (ci1\<lparr>input_value := v, cursor_position := length v\<rparr>))
      else Inr ci)"
| "on_key W Down ci =
     (if history_index ci > 0 then
        (let ci1 = ci\<lparr>history_index := history_index ci - 1\<rparr> in
         case index W (history ci1) (- (history_index ci1 + 1)) of
           Inl e \<Rightarrow> Inl e
         | Inr v \<Rightarrow> Inr (ci1\<lparr>input_value := v, cursor_position := length v\<rparr>))
      else if history_index ci = 0 then Inr (ci\<lparr>history_index := -1, input_value := []\<rparr>)
      else Inr ci)"
| "on_key W (OtherKey k) ci = Inr ci"

fun on_keys :: "world \<Rightarrow> key list \<Rightarrow> CommandInput \<Rightarrow> exn + CommandInput" where
  \<comment> \<open>one key after the other; an exception ends the run\<close>
  "on_keys W [] ci = Inr ci"
| "on_keys W (k # ks) ci = (case on_key W k ci of Inl e \<Rightarrow> Inl e | Inr ci' \<Rightarrow> on_keys W ks ci')"

definition recalled :: "CommandInput \<Rightarrow> nat \<Rightarrow> CommandInput" where
  \<comment> \<open>the input showing the \<open>m\<close>-th most recent entry of its history, \<open>m\<close> from 1\<close>
  "recalled ci m =
     ci\<lparr>history_index := int m - 1,
        input_value := rev (history ci) ! (m - 1),
        cursor_position := length (rev (history ci) ! (m - 1))\<rparr>"

subsection \<open>DreyCLI\<close>

record DreyCLI =
  cwd :: string
  current_suggestions :: "string list"
  ai :: AIAssistant
  output_log :: "rich_text list"  \<comment> \<open>what the \<open>#output\<close> log holds\<close>
  cwd_label :: string  \<comment> \<open>the \<open>#cwd-label\<close> widget\<close>
  suggestions :: "string list"  \<comment> \<open>the labels of the \<open>#suggestions\<close> list\<close>
  suggestions_visible :: bool  \<comment> \<open>its class \<open>visible\<close>\<close>
  command_input :: CommandInput  \<comment> \<open>the \<open>#command-input\<close> widget\<close>
  exited :: bool  \<comment> \<open>\<open>self.exit()\<close> was called\<close>
  requests :: "request list"  \<comment> \<open>the HTTP requests sent so far\<close>
  spawned :: "(string \<times> string) list"
    \<comment> \<open>the command and \<open>cwd\<close> of every \<open>Popen\<close> so far\<close>

definition DreyCLI_init :: "string \<Rightarrow> string \<Rightarrow> (exn + string list) option \<Rightarrow> DreyCLI" where
  \<comment> \<open>\<open>__init__\<close> and \<open>compose\<close>, from \<open>os.getcwd()\<close>, the credential of the environment and
      the history file\<close>
  "DreyCLI_init dir key file =
     \<lparr>cwd = dir, current_suggestions = [], ai = AIAssistant_init key, output_log = [],
      cwd_label = ''  '' @ dir, suggestions = [], suggestions_visible = False,
      command_input = CommandInput_init file, exited = False, requests = [], spawned = []\<rparr>"

definition output_write :: "rich_text \<Rightarrow> DreyCLI \<Rightarrow> DreyCLI" where
  \<comment> \<open>\<open>output.write(t)\<close>\<close>
  "output_write t app = app\<lparr>output_log := output_log app @ [t]\<rparr>"

fun history_matches :: "string \<Rightarrow> string list \<Rightarrow> string list \<Rightarrow> string list" where
  \<comment> \<open>the loop over \<open>reversed(cmd_input.history[-50:])\<close>, \<open>matches\<close> first\<close>
  "history_matches text_lower matches [] = matches"
| "history_matches text_lower matches (hist_cmd # rest) =
     (if contains text_lower (lower hist_cmd) \<and> hist_cmd \<notin> set matches
      then history_matches text_lower (matches @ [hist_cmd]) rest
      else history_matches text_lower matches rest)"

definition update_suggestions :: "string \<Rightarrow> DreyCLI \<Rightarrow> DreyCLI" where
  "update_suggestions txt app =
     (let app1 = app\<lparr>suggestions := []\<rparr> in
      if txt = [] \<or> startswith txt ''?'' then app1\<lparr>suggestions_visible := False\<rparr>
      else
        (let text_lower = lower txt;
             matches = [cmd \<leftarrow> ALL_COMMANDS. contains text_lower (lower cmd)];
             matches = history_matches text_lower matches
                         (rev (slice_last 50 (history (command_input app1))))
         in if matches \<noteq> [] then
              app1\<lparr>current_suggestions := take 8 matches, suggestions := take 8 matches,
                   suggestions_visible := True\<rparr>
            else app1\<lparr>suggestions_visible := False\<rparr>))"

definition robot :: string where
  \<comment> \<open>the nine bytes the source file has before \<open>AI Query\<close>\<close>
  "robot = [CHR 0xC3, CHR 0xB0, CHR 0xC5, CHR 0xB8, CHR 0xC2, CHR 0xA4, CHR 0xE2, CHR 0x80, CHR 0x93]"

definition bulb :: string where
  \<comment> \<open>the nine bytes the source file has before \<open>Quick Suggestion\<close>\<close>
  "bulb = [CHR 0xC3, CHR 0xB0, CHR 0xC5, CHR 0xB8, CHR 0xE2, CHR 0x80, CHR 0x99, CHR 0xC2, CHR 0xA1]"

fun write_lines :: "bool \<Rightarrow> string list \<Rightarrow> DreyCLI \<Rightarrow> DreyCLI" where
  \<comment> \<open>\<open>for i, line in enumerate(lines)\<close>; the flag says \<open>i > 0\<close>\<close>
  "write_lines later [] app = app"
| "write_lines later (line # rest) app =
     (let app1 = (if later then output_write (Text ''\<newline>  '' White) app else app);
          app2 = (if line \<noteq> [] then output_write (Text line White) app1 else app1)
      in write_lines True rest app2)"

fun write_chunks :: "world \<Rightarrow> pyobj list \<Rightarrow> DreyCLI \<Rightarrow> DreyCLI" where
  \<comment> \<open>the \<open>async for chunk\<close> loop of \<open>ask_ai\<close> inside its \<open>try\<close>: a chunk that is no str has
      no \<open>split\<close>, and the handler ends the loop\<close>
  "write_chunks W [] app = app"
| "write_chunks W (PyStr chunk # rest) app =
     write_chunks W rest (write_lines False (split_on CHR ''\<newline>'' [] chunk) app)"
| "write_chunks W (chunk # rest) app =
     output_write (Text (''\<newline>  Error: '' @ str_exn (AttributeError (no_attribute W chunk ''split''))
                  @ ''\<newline>'') BoldRed) app"

definition ask_ai :: "world \<Rightarrow> string \<Rightarrow> DreyCLI \<Rightarrow> DreyCLI" where
  "ask_ai W query app =
     (let app1 = output_write (Text (''\<newline>  '' @ robot @ '' AI Query:\<newline>'') BoldMagenta) app;
          app2 = output_write (Text (''  ? '' @ query @ ''\<newline>\<newline>'') BoldYellow) app1;
          app3 = (case get_quick_suggestion query of
                    None \<Rightarrow> app2
                  | Some quick \<Rightarrow>
                      if quick \<noteq> [] then
                        output_write (Text ''  (Asking AI for more details...)\<newline>\<newline>'' Dim)
                          (output_write (Text (''  '' @ quick @ ''\<newline>\<newline>'') BoldWhite)
                             (output_write (Text (''  '' @ bulb @ '' Quick Suggestion:\<newline>'') BoldGreen)
                                app2))
                      else app2);
          app4 = output_write (Text ''  '' White) app3
      in case ask W (ai app4) query of
           (chunks, sent) \<Rightarrow>
             output_write (Text ''\<newline>\<newline>'' White)
               (write_chunks W chunks (app4\<lparr>requests := requests app4 @ sent\<rparr>)))"

definition cd_target :: "world \<Rightarrow> string \<Rightarrow> string" where
  \<comment> \<open>the expansion of a leading \<open>~\<close> in \<open>run_command\<close>\<close>
  "cd_target W path =
     (if path = ''~'' then expanduser W ''~''
      else if startswith path ''~/'' then expanduser W path
      else path)"

definition run_command :: "world \<Rightarrow> string \<Rightarrow> DreyCLI \<Rightarrow> DreyCLI" where
  "run_command W command app =
     (let app1 = output_write (Text (''\<newline>  '' @ cwd app @ ''\<newline>'') BoldCyan) app;
          app2 = output_write (Text (''  $ '' @ command @ ''\<newline>'') BoldGreen) app1
      in
      if startswith command ''cd '' then
        (let path = strip (drop 3 command) in
         case chdir W (cd_target W path) of
           Inl e \<Rightarrow> output_write (Text (''  Error: '' @ str_exn e @ ''\<newline>'') BoldRed) app2
         | Inr dir \<Rightarrow>
             output_write (Text (''  Changed to: '' @ dir @ ''\<newline>'') Dim)
               (app2\<lparr>cwd := dir, cwd_label := ''  '' @ dir\<rparr>))
      else if command = ''clear'' then app2\<lparr>output_log := []\<rparr>
      else if command = ''exit'' \<or> command = ''quit'' then app2\<lparr>exited := True\<rparr>
      else
        (let app3 = app2\<lparr>spawned := spawned app2 @ [(command, cwd app2)]\<rparr> in
         case popen W command (cwd app2) of
           SpawnFailed e \<Rightarrow> output_write (Text (''  Error: '' @ str_exn e @ ''\<newline>'') BoldRed) app3
         | Spawned lines result \<Rightarrow>
             (let app4 = app3\<lparr>output_log := output_log app3
                           @ [Text (''  '' @ rstrip line @ ''\<newline>'') White. line \<leftarrow> lines, line \<noteq> []]\<rparr>
              in case result of
                   Inl e \<Rightarrow> output_write (Text (''  Error: '' @ str_exn e @ ''\<newline>'') BoldRed) app4
                 | Inr returncode \<Rightarrow>
                     if returncode \<noteq> 0 then
                       output_write (Text (''\<newline>  Exit code: '' @ str_int returncode @ ''\<newline>'') Yellow) app4
                     else app4)))"

definition on_input_submitted :: "world \<Rightarrow> string \<Rightarrow> DreyCLI \<Rightarrow> DreyCLI" where
  \<comment> \<open>the argument is \<open>event.value\<close> of the one Input, \<open>#command-input\<close>\<close>
  "on_input_submitted W v app =
     (let command = strip v in
      if command \<noteq> [] then
        (let app1 =
               (if startswith command ''?'' then
                  (let query = strip (drop 1 command) in
                   if query \<noteq> [] then ask_ai W query app else app)
                else if startswith (lower command) ''/ask '' then
                  (let query = strip (drop 5 command) in
                   if query \<noteq> [] then ask_ai W query app else app)
                else run_command W command app);
             inp = command_input app1
         in app1\<lparr>command_input := inp\<lparr>input_value := [],
                                          history := history inp @ [command],
                                          history_index := -1\<rparr>,
                 suggestions_visible := False\<rparr>)
      else app)"

subsection \<open>A concrete world and session\<close>

definition hi_payload :: string where
  \<comment> \<open>the JSON text of a content delta whose text is \<open>hi\<close>\<close>
  "hi_payload = ''{'' @ [CHR 0x22] @ ''type'' @ [CHR 0x22] @ '': '' @ [CHR 0x22]
     @ ''content_block_delta'' @ [CHR 0x22] @ '', '' @ [CHR 0x22] @ ''delta'' @ [CHR 0x22]
     @ '': {'' @ [CHR 0x22] @ ''text'' @ [CHR 0x22] @ '': '' @ [CHR 0x22] @ ''hi'' @ [CHR 0x22]
     @ ''}}''"

definition world0 :: world where
  "world0 =
     \<lparr>json_loads = (\<lambda>s. if s = ''5'' then Inr (PyInt 5)
                        else if s = hi_payload
                        then Inr (PyDict [(''type'', PyStr ''content_block_delta''),
                                          (''delta'', PyDict [(''text'', PyStr ''hi'')])])
                        else Inl (JSONDecodeError ''Expecting value'')),
      stream_post = (\<lambda>rq. Inr \<lparr>status_code = 200, aread = Inr [],
                               aiter_lines = [''event: content_block_delta'', ''data: 5'',
                                              ''data: '' @ hi_payload],
                               aiter_end = None\<rparr>),
      no_attribute = (\<lambda>obj name. ''object has no attribute '' @ name),
      not_container = (\<lambda>obj. ''argument is not iterable''),
      not_indexable = (\<lambda>obj. ''indices must be integers''),
      expanduser = (\<lambda>p. ''/home/user'' @ drop 1 p),
      chdir = (\<lambda>p. if p = ''/tmp'' then Inr ''/tmp''
                   else Inl (OtherException (''[Errno 2] No such file or directory: '' @ p))),
      index_out_of_range = ''list index out of range'',
      popen = (\<lambda>command dir. if command = ''false'' then Spawned [] (Inr 1)
                              else Spawned [''hi\<newline>''] (Inr 0))\<rparr>"

definition app0 :: DreyCLI where
  "app0 = DreyCLI_init ''/home/user'' ''sk-test'' None"

definition world1 :: world where
  \<comment> \<open>as \<open>world0\<close>, with a stream that holds an undecodable frame and ends on the sentinel\<close>
  "world1 = world0\<lparr>stream_post := (\<lambda>rq. Inr \<lparr>status_code = 200, aread = Inr [],
       aiter_lines = [''event: content_block_delta'', ''data: {bad'', ''data: '' @ hi_payload,
                      [], ''data: [DONE]'', ''data: '' @ hi_payload],
       aiter_end = None\<rparr>)\<rparr>"

subsection \<open>What the stream protocol asks of the client\<close>

definition data_frames :: "string list \<Rightarrow> string list" where
  \<comment> \<open>the payloads of the \<open>data: \<close> lines that arrive before the sentinel\<close>
  "data_frames lines =
     takeWhile (\<lambda>d. d \<noteq> ''[DONE]'') [drop 6 line. line \<leftarrow> lines, startswith line ''data: '']"

definition delta_text :: "pyobj \<Rightarrow> pyobj list" where
  \<comment> \<open>the \<open>delta.text\<close> of a content-delta event, if it has one\<close>
  "delta_text event =
     (case event of
        PyDict kvs \<Rightarrow>
          if map_of kvs ''type'' = Some (PyStr ''content_block_delta'') then
            (case map_of kvs ''delta'' of
               Some (PyDict d) \<Rightarrow> (case map_of d ''text'' of Some v \<Rightarrow> [v] | None \<Rightarrow> [])
             | _ \<Rightarrow> [])
          else []
      | _ \<Rightarrow> [])"

definition expected_deltas :: "world \<Rightarrow> string list \<Rightarrow> pyobj list" where
  \<comment> \<open>the delta texts of the frames that decode, in arrival order\<close>
  "expected_deltas W lines =
     concat (map (\<lambda>d. case json_loads W d of Inl e \<Rightarrow> [] | Inr event \<Rightarrow> delta_text event)
               (data_frames lines))"

definition structured_frame :: "world \<Rightarrow> string \<Rightarrow> bool" where
  \<comment> \<open>the payload fails to decode as JSON, or decodes to an object whose \<open>delta\<close>, in a
      content-delta event, is an object too\<close>
  "structured_frame W d =
     (case json_loads W d of
        Inl e \<Rightarrow> is_JSONDecodeError e
      | Inr event \<Rightarrow>
          (case event of
             PyDict kvs \<Rightarrow>
               (if map_of kvs ''type'' = Some (PyStr ''content_block_delta'') then
                  (case map_of kvs ''delta'' of
                     None \<Rightarrow> True | Some (PyDict d) \<Rightarrow> True | Some _ \<Rightarrow> False)
                else True)
           | _ \<Rightarrow> False))"

section \<open>Properties\<close>

subsection \<open>Quick suggestions\<close>

lemma quick_loop_at:
  "i < length kcs \<Longrightarrow>
   contains (fst (kcs ! i)) ql \<or> (\<forall>w\<in>set (split (fst (kcs ! i))). contains w ql) \<Longrightarrow>
   \<forall>j<i. \<not> (contains (fst (kcs ! j)) ql \<or> (\<forall>w\<in>set (split (fst (kcs ! j))). contains w ql)) \<Longrightarrow>
   quick_loop kcs ql = Some (snd (kcs ! i))"
proof (induction kcs arbitrary: i)
  case Nil
  then show ?case by simp
next
  case (Cons kc kcs)
  obtain k c where kc: "kc = (k, c)" by (cases kc)
  show ?case
  proof (cases i)
    case 0
    with Cons.prems kc show ?thesis by (auto simp: list_all_iff)
  next
    case (Suc i')
    from Cons.prems(3) Suc have no0: "\<not> (contains k ql \<or> (\<forall>w\<in>set (split k). contains w ql))"
      using kc by fastforce
    have rest: "\<forall>j<i'. \<not> (contains (fst (kcs ! j)) ql \<or> (\<forall>w\<in>set (split (fst (kcs ! j))). contains w ql))"
    proof (intro allI impI)
      fix j assume "j < i'"
      then have "Suc j < i" using Suc by simp
      with Cons.prems(3) show "\<not> (contains (fst (kcs ! j)) ql \<or> (\<forall>w\<in>set (split (fst (kcs ! j))). contains w ql))"
        by fastforce
    qed
    from Cons.prems(1,2) Suc have "quick_loop kcs ql = Some (snd (kcs ! i'))"
      using Cons.IH[of i'] rest by simp
    with no0 kc Suc show ?thesis by (auto simp: list_all_iff)
  qed
qed

lemma quick_loop_none:
  "\<forall>i<length kcs. \<not> (contains (fst (kcs ! i)) ql \<or> (\<forall>w\<in>set (split (fst (kcs ! i))). contains w ql)) \<Longrightarrow>
   quick_loop kcs ql = None"
proof (induction kcs)
  case Nil
  then show ?case by simp
next
  case (Cons kc kcs)
  obtain k c where kc: "kc = (k, c)" by (cases kc)
  from Cons.prems have no0: "\<not> (contains k ql \<or> (\<forall>w\<in>set (split k). contains w ql))"
    using kc by fastforce
  have "\<forall>i<length kcs. \<not> (contains (fst (kcs ! i)) ql \<or> (\<forall>w\<in>set (split (fst (kcs ! i))). contains w ql))"
  proof (intro allI impI)
    fix i assume "i < length kcs"
    then have "Suc i < length (kc # kcs)" by simp
    with Cons.prems show "\<not> (contains (fst (kcs ! i)) ql \<or> (\<forall>w\<in>set (split (fst (kcs ! i))). contains w ql))"
      by fastforce
  qed
  with Cons.IH have "quick_loop kcs ql = None" by simp
  with no0 kc show ?case by (auto simp: list_all_iff)
qed

lemma QUICK_SUGGESTIONS_0:
  "QUICK_SUGGESTIONS ! 0 =
     (''find large files'', ''find . -type f -size +100M -exec ls -lh {} '' @ [CHR 0x5C] @ '';'')"
  by (simp add: QUICK_SUGGESTIONS_def)

lemma QUICK_SUGGESTIONS_1:
  "QUICK_SUGGESTIONS ! 1 = (''disk usage'', ''du -sh */ | sort -rh | head -20'')"
  by (simp add: QUICK_SUGGESTIONS_def)

text \<open>
  C10. \<open>get_quick_suggestion\<close> returns the canned command of the first key, in the order of
  the table, whose full text occurs in the lowercased question or whose every
  whitespace-separated word occurs in it, and returns nothing when no key matches. The
  result is an \<open>option\<close>: at most one suggestion, a function of the question alone.
\<close>

theorem get_quick_suggestion_first_match:
  "(\<forall>i<length QUICK_SUGGESTIONS.
      (contains (fst (QUICK_SUGGESTIONS ! i)) (lower q)
         \<or> (\<forall>w\<in>set (split (fst (QUICK_SUGGESTIONS ! i))). contains w (lower q)))
      \<and> (\<forall>j<i. \<not> (contains (fst (QUICK_SUGGESTIONS ! j)) (lower q)
                     \<or> (\<forall>w\<in>set (split (fst (QUICK_SUGGESTIONS ! j))). contains w (lower q))))
      \<longrightarrow> get_quick_suggestion q = Some (snd (QUICK_SUGGESTIONS ! i)))
   \<and> ((\<forall>i<length QUICK_SUGGESTIONS.
          \<not> (contains (fst (QUICK_SUGGESTIONS ! i)) (lower q)
              \<or> (\<forall>w\<in>set (split (fst (QUICK_SUGGESTIONS ! i))). contains w (lower q))))
        \<longrightarrow> get_quick_suggestion q = None)"
  unfolding get_quick_suggestion_def
  using quick_loop_at[of _ QUICK_SUGGESTIONS "lower q"] quick_loop_none[of QUICK_SUGGESTIONS "lower q"]
  by blast

theorem get_quick_suggestion_first_match_witness:
  "get_quick_suggestion ''Usage of my DISK'' = Some ''du -sh */ | sort -rh | head -20''
   \<and> get_quick_suggestion ''Hi'' = None"
proof -
  have len: "(1::nat) < length QUICK_SUGGESTIONS" by (simp add: QUICK_SUGGESTIONS_def)
  have hit: "contains (fst (QUICK_SUGGESTIONS ! 1)) (lower ''Usage of my DISK'')
      \<or> (\<forall>w\<in>set (split (fst (QUICK_SUGGESTIONS ! 1))). contains w (lower ''Usage of my DISK''))"
    unfolding QUICK_SUGGESTIONS_1 by code_simp
  have miss: "\<forall>j<(1::nat). \<not> (contains (fst (QUICK_SUGGESTIONS ! j)) (lower ''Usage of my DISK'')
      \<or> (\<forall>w\<in>set (split (fst (QUICK_SUGGESTIONS ! j))). contains w (lower ''Usage of my DISK'')))"
  proof (intro allI impI)
    fix j :: nat assume "j < 1"
    then have j: "j = 0" by simp
    show "\<not> (contains (fst (QUICK_SUGGESTIONS ! j)) (lower ''Usage of my DISK'')
      \<or> (\<forall>w\<in>set (split (fst (QUICK_SUGGESTIONS ! j))). contains w (lower ''Usage of my DISK'')))"
      unfolding j QUICK_SUGGESTIONS_0 by code_simp
  qed
  have "get_quick_suggestion ''Usage of my DISK'' = Some (snd (QUICK_SUGGESTIONS ! 1))"
    by (rule get_quick_suggestion_first_match[of "''Usage of my DISK''", THEN conjunct1,
          rule_format, OF len conjI[OF hit miss]])
  then have found: "get_quick_suggestion ''Usage of my DISK'' = Some ''du -sh */ | sort -rh | head -20''"
    unfolding QUICK_SUGGESTIONS_1 by simp
  have "list_all (\<lambda>kc. \<not> (contains (fst kc) (lower ''Hi'')
              \<or> (\<forall>w\<in>set (split (fst kc)). contains w (lower ''Hi'')))) QUICK_SUGGESTIONS"
    by code_simp
  then have none: "\<forall>i<length QUICK_SUGGESTIONS.
          \<not> (contains (fst (QUICK_SUGGESTIONS ! i)) (lower ''Hi'')
              \<or> (\<forall>w\<in>set (split (fst (QUICK_SUGGESTIONS ! i))). contains w (lower ''Hi'')))"
    unfolding list_all_length by blast
  have "get_quick_suggestion ''Hi'' = None"
    by (rule get_quick_suggestion_first_match[of "''Hi''", THEN conjunct2, THEN mp, OF none])
  with found show ?thesis by blast
qed

subsection \<open>What asking the assistant changes\<close>

lemma write_lines_log:
  "\<exists>ts. write_lines later ls app = app\<lparr>output_log := output_log app @ ts\<rparr>"
proof (induction ls arbitrary: later app)
  case Nil
  have "write_lines later [] app = app\<lparr>output_log := output_log app @ []\<rparr>" by simp
  then show ?case by blast
next
  case (Cons l ls)
  define app2 where "app2 = (let app1 = (if later then output_write (Text ''\<newline>  '' White) app else app)
      in if l \<noteq> [] then output_write (Text l White) app1 else app1)"
  have step: "write_lines later (l # ls) app = write_lines True ls app2"
    by (simp add: app2_def Let_def)
  have "\<exists>us. app2 = app\<lparr>output_log := output_log app @ us\<rparr>"
  proof (cases later; cases "l = []")
    assume "\<not> later" "l = []"
    then have "app2 = app\<lparr>output_log := output_log app @ []\<rparr>" by (simp add: app2_def)
    then show ?thesis by blast
  qed (auto simp: app2_def output_write_def Let_def)
  then obtain us where us: "app2 = app\<lparr>output_log := output_log app @ us\<rparr>" by blast
  from Cons.IH[of True app2] obtain ts where
    "write_lines True ls app2 = app2\<lparr>output_log := output_log app2 @ ts\<rparr>" by blast
  with us step have "write_lines later (l # ls) app = app\<lparr>output_log := output_log app @ (us @ ts)\<rparr>"
    by simp
  then show ?case by blast
qed

lemma write_chunks_log:
  "\<exists>ts. write_chunks W chunks app = app\<lparr>output_log := output_log app @ ts\<rparr>"
proof (induction W chunks app rule: write_chunks.induct)
  case (1 W app)
  have "write_chunks W [] app = app\<lparr>output_log := output_log app @ []\<rparr>" by simp
  then show ?case by blast
next
  case (2 W chunk rest app)
  obtain us where us: "write_lines False (split_on CHR ''\<newline>'' [] chunk) app
      = app\<lparr>output_log := output_log app @ us\<rparr>"
    using write_lines_log by blast
  from 2 obtain ts where ts: "write_chunks W rest (write_lines False (split_on CHR ''\<newline>'' [] chunk) app)
      = (write_lines False (split_on CHR ''\<newline>'' [] chunk) app)
          \<lparr>output_log := output_log (write_lines False (split_on CHR ''\<newline>'' [] chunk) app) @ ts\<rparr>"
    by blast
  have "write_chunks W (PyStr chunk # rest) app = app\<lparr>output_log := output_log app @ (us @ ts)\<rparr>"
    using ts by (simp add: us)
  then show ?case by blast
qed (auto simp: output_write_def)

lemma ask_ai_log:
  "\<exists>ts. ask_ai W query app =
     app\<lparr>output_log := output_log app
             @ [Text (''\<newline>  '' @ robot @ '' AI Query:\<newline>'') BoldMagenta,
                Text (''  ? '' @ query @ ''\<newline>\<newline>'') BoldYellow] @ ts,
          requests := requests app @ snd (ask W (ai app) query)\<rparr>"
proof -
  define app2 where "app2 = output_write (Text (''  ? '' @ query @ ''\<newline>\<newline>'') BoldYellow)
     (output_write (Text (''\<newline>  '' @ robot @ '' AI Query:\<newline>'') BoldMagenta) app)"
  define app3 where "app3 = (case get_quick_suggestion query of
                    None \<Rightarrow> app2
                  | Some quick \<Rightarrow>
                      if quick \<noteq> [] then
                        output_write (Text ''  (Asking AI for more details...)\<newline>\<newline>'' Dim)
                          (output_write (Text (''  '' @ quick @ ''\<newline>\<newline>'') BoldWhite)
                             (output_write (Text (''  '' @ bulb @ '' Quick Suggestion:\<newline>'') BoldGreen)
                                app2))
                      else app2)"
  define app4 where "app4 = output_write (Text ''  '' White) app3"
  have a3: "\<exists>us. app3 = app2\<lparr>output_log := output_log app2 @ us\<rparr>"
  proof (cases "get_quick_suggestion query")
    case None
    then have "app3 = app2\<lparr>output_log := output_log app2 @ []\<rparr>" by (simp add: app3_def)
    then show ?thesis by blast
  next
    case (Some quick)
    show ?thesis
    proof (cases "quick = []")
      case True
      with Some have "app3 = app2\<lparr>output_log := output_log app2 @ []\<rparr>" by (simp add: app3_def)
      then show ?thesis by blast
    next
      case False
      with Some show ?thesis by (auto simp: app3_def output_write_def)
    qed
  qed
  then obtain us where us: "app3 = app2\<lparr>output_log := output_log app2 @ us\<rparr>" by blast
  have ai4: "ai app4 = ai app" by (simp add: app4_def us app2_def output_write_def)
  obtain chunks sent where ask: "ask W (ai app) query = (chunks, sent)" by (cases "ask W (ai app) query")
  obtain ts where ts: "write_chunks W chunks (app4\<lparr>requests := requests app4 @ sent\<rparr>)
      = (app4\<lparr>requests := requests app4 @ sent\<rparr>)
          \<lparr>output_log := output_log (app4\<lparr>requests := requests app4 @ sent\<rparr>) @ ts\<rparr>"
    using write_chunks_log by blast
  have "ask_ai W query app = (case ask W (ai app4) query of
           (chunks, sent) \<Rightarrow>
             output_write (Text ''\<newline>\<newline>'' White)
               (write_chunks W chunks (app4\<lparr>requests := requests app4 @ sent\<rparr>)))"
    by (simp only: ask_ai_def Let_def app4_def app3_def app2_def)
  also have "\<dots> = output_write (Text ''\<newline>\<newline>'' White)
               (write_chunks W chunks (app4\<lparr>requests := requests app4 @ sent\<rparr>))"
    by (simp only: ai4 ask prod.case)
  also have "\<dots> = app\<lparr>output_log := output_log app
             @ [Text (''\<newline>  '' @ robot @ '' AI Query:\<newline>'') BoldMagenta,
                Text (''  ? '' @ query @ ''\<newline>\<newline>'') BoldYellow]
             @ (us @ [Text ''  '' White] @ ts @ [Text ''\<newline>\<newline>'' White]),
          requests := requests app @ snd (ask W (ai app) query)\<rparr>"
    using ts by (simp add: ask app4_def us app2_def output_write_def)
  finally show ?thesis by blast
qed

subsection \<open>Running a command\<close>

lemma contains_infix: "contains sub (pre @ sub @ post)"
proof (induction pre)
  case Nil
  show ?case
  proof (cases "sub @ post")
    case Nil
    then show ?thesis by simp
  next
    case (Cons a list)
    have "startswith (sub @ post) sub" by (simp add: startswith_def)
    with Cons have "startswith (a # list) sub" by simp
    then have "contains sub (a # list)" by simp
    with Cons show ?thesis by simp
  qed
next
  case (Cons c pre)
  then show ?case by simp
qed

lemma lower_char_keeps [simp]:
  "lower_char CHR ''?'' = CHR ''?''" "lower_char CHR ''c'' = CHR ''c''"
  by (simp_all add: lower_char_def)

lemma run_command_cd:
  assumes "startswith command ''cd ''"
  shows "run_command W command app =
    (case chdir W (cd_target W (strip (drop 3 command))) of
       Inl e \<Rightarrow> app\<lparr>output_log := output_log app
                  @ [Text (''\<newline>  '' @ cwd app @ ''\<newline>'') BoldCyan,
                     Text (''  $ '' @ command @ ''\<newline>'') BoldGreen,
                     Text (''  Error: '' @ str_exn e @ ''\<newline>'') BoldRed]\<rparr>
     | Inr dir \<Rightarrow> app\<lparr>output_log := output_log app
                  @ [Text (''\<newline>  '' @ cwd app @ ''\<newline>'') BoldCyan,
                     Text (''  $ '' @ command @ ''\<newline>'') BoldGreen,
                     Text (''  Changed to: '' @ dir @ ''\<newline>'') Dim],
                   cwd := dir, cwd_label := ''  '' @ dir\<rparr>)"
  using assms by (simp add: run_command_def Let_def output_write_def split: sum.splits)

lemma run_command_clear:
  "run_command W ''clear'' app = app\<lparr>output_log := []\<rparr>"
  by (simp add: run_command_def Let_def output_write_def startswith_def)

lemma run_command_exit:
  assumes "command = ''exit'' \<or> command = ''quit''"
  shows "run_command W command app =
     app\<lparr>output_log := output_log app
            @ [Text (''\<newline>  '' @ cwd app @ ''\<newline>'') BoldCyan,
               Text (''  $ '' @ command @ ''\<newline>'') BoldGreen],
          exited := True\<rparr>"
  using assms by (auto simp: run_command_def Let_def output_write_def startswith_def)

lemma run_command_shell:
  assumes "\<not> startswith command ''cd ''" "command \<noteq> ''clear''" "command \<noteq> ''exit''"
    "command \<noteq> ''quit''"
  shows "run_command W command app =
    (let hd2 = [Text (''\<newline>  '' @ cwd app @ ''\<newline>'') BoldCyan,
                Text (''  $ '' @ command @ ''\<newline>'') BoldGreen];
         app3 = app\<lparr>spawned := spawned app @ [(command, cwd app)]\<rparr>
     in case popen W command (cwd app) of
          SpawnFailed e \<Rightarrow>
            app3\<lparr>output_log := output_log app @ hd2
                    @ [Text (''  Error: '' @ str_exn e @ ''\<newline>'') BoldRed]\<rparr>
        | Spawned lines result \<Rightarrow>
            app3\<lparr>output_log := output_log app @ hd2
                    @ [Text (''  '' @ rstrip line @ ''\<newline>'') White. line \<leftarrow> lines, line \<noteq> []]
                    @ (case result of
                         Inl e \<Rightarrow> [Text (''  Error: '' @ str_exn e @ ''\<newline>'') BoldRed]
                       | Inr returncode \<Rightarrow>
                           if returncode \<noteq> 0
                           then [Text (''\<newline>  Exit code: '' @ str_int returncode @ ''\<newline>'') Yellow]
                           else [])\<rparr>)"
  using assms
  by (simp add: run_command_def Let_def output_write_def split: proc.splits sum.splits)

lemma white_fragments:
  "filter (\<lambda>t. style_of t = Yellow) [Text (f line) White. line \<leftarrow> lines, P line] = []"
  by (induction lines) auto

text \<open>
  C5. A run of an external command that reaches process exit writes the header, then one
  white fragment per line read, then the status: nothing when the exit code is zero, and
  otherwise exactly one yellow status line, the last event of the run, whose text holds the
  exit code.
\<close>

theorem process_exit_status:
  assumes "\<not> startswith command ''cd ''" "command \<noteq> ''clear''" "command \<noteq> ''exit''"
    "command \<noteq> ''quit''"
    and "popen W command (cwd app) = Spawned lines (Inr returncode)"
  shows "output_log (run_command W command app) =
           output_log app
           @ [Text (''\<newline>  '' @ cwd app @ ''\<newline>'') BoldCyan,
              Text (''  $ '' @ command @ ''\<newline>'') BoldGreen]
           @ [Text (''  '' @ rstrip line @ ''\<newline>'') White. line \<leftarrow> lines, line \<noteq> []]
           @ (if returncode = 0 then []
              else [Text (''\<newline>  Exit code: '' @ str_int returncode @ ''\<newline>'') Yellow])
         \<and> filter (\<lambda>t. style_of t = Yellow)
              (drop (length (output_log app)) (output_log (run_command W command app))) =
             (if returncode = 0 then []
              else [Text (''\<newline>  Exit code: '' @ str_int returncode @ ''\<newline>'') Yellow])
         \<and> contains (str_int returncode) (''\<newline>  Exit code: '' @ str_int returncode @ ''\<newline>'')"
proof -
  have log: "output_log (run_command W command app) =
           output_log app
           @ [Text (''\<newline>  '' @ cwd app @ ''\<newline>'') BoldCyan,
              Text (''  $ '' @ command @ ''\<newline>'') BoldGreen]
           @ [Text (''  '' @ rstrip line @ ''\<newline>'') White. line \<leftarrow> lines, line \<noteq> []]
           @ (if returncode = 0 then []
              else [Text (''\<newline>  Exit code: '' @ str_int returncode @ ''\<newline>'') Yellow])"
    using assms(5) by (simp add: run_command_shell[OF assms(1-4)] Let_def)
  have cnt: "filter (\<lambda>t. style_of t = Yellow)
              (drop (length (output_log app)) (output_log (run_command W command app))) =
             (if returncode = 0 then []
              else [Text (''\<newline>  Exit code: '' @ str_int returncode @ ''\<newline>'') Yellow])"
    unfolding log by (simp add: white_fragments)
  have "contains (str_int returncode) (''\<newline>  Exit code: '' @ str_int returncode @ ''\<newline>'')"
    by (rule contains_infix)
  with log cnt show ?thesis by blast
qed

theorem process_exit_status_witness:
  "output_log (run_command world0 ''false'' app0) =
     [Text ''\<newline>  /home/user\<newline>'' BoldCyan, Text ''  $ false\<newline>'' BoldGreen,
      Text ''\<newline>  Exit code: 1\<newline>'' Yellow]
   \<and> output_log (run_command world0 ''echo hi'' app0) =
     [Text ''\<newline>  /home/user\<newline>'' BoldCyan, Text ''  $ echo hi\<newline>'' BoldGreen,
      Text ''  hi\<newline>'' White]"
proof -
  have cwd0: "cwd app0 = ''/home/user''" and log0: "output_log app0 = []"
    by (simp_all add: app0_def DreyCLI_init_def)
  have p1: "popen world0 ''false'' (cwd app0) = Spawned [] (Inr 1)"
    by (simp add: world0_def)
  have p2: "popen world0 ''echo hi'' (cwd app0) = Spawned [''hi\<newline>''] (Inr 0)"
    by (simp add: world0_def)
  have s1: "str_int 1 = ''1''" by code_simp
  have r1: "rstrip ''hi\<newline>'' = ''hi''" by code_simp
  have a: "output_log (run_command world0 ''false'' app0) =
     [Text ''\<newline>  /home/user\<newline>'' BoldCyan, Text ''  $ false\<newline>'' BoldGreen,
      Text ''\<newline>  Exit code: 1\<newline>'' Yellow]"
    using process_exit_status[of "''false''" world0 app0 "[]" 1, OF _ _ _ _ p1]
    by (simp add: startswith_def cwd0 log0 s1)
  have b: "output_log (run_command world0 ''echo hi'' app0) =
     [Text ''\<newline>  /home/user\<newline>'' BoldCyan, Text ''  $ echo hi\<newline>'' BoldGreen,
      Text ''  hi\<newline>'' White]"
    using process_exit_status[of "''echo hi''" world0 app0 "[''hi\<newline>'']" 0, OF _ _ _ _ p2]
    by (simp add: startswith_def cwd0 log0 r1)
  from a b show ?thesis by blast
qed

subsection \<open>Submitting a line\<close>

lemma run_command_frame:
  "command_input (run_command W command app) = command_input app"
  "requests (run_command W command app) = requests app"
  by (simp_all add: run_command_def Let_def output_write_def split: sum.splits proc.splits)

lemma ask_ai_frame:
  "command_input (ask_ai W query app) = command_input app"
  "spawned (ask_ai W query app) = spawned app"
  "cwd (ask_ai W query app) = cwd app"
  "exited (ask_ai W query app) = exited app"
  "requests (ask_ai W query app) = requests app @ snd (ask W (ai app) query)"
proof -
  obtain ts where "ask_ai W query app =
     app\<lparr>output_log := output_log app
             @ [Text (''\<newline>  '' @ robot @ '' AI Query:\<newline>'') BoldMagenta,
                Text (''  ? '' @ query @ ''\<newline>\<newline>'') BoldYellow] @ ts,
          requests := requests app @ snd (ask W (ai app) query)\<rparr>"
    using ask_ai_log by blast
  then show "command_input (ask_ai W query app) = command_input app"
    "spawned (ask_ai W query app) = spawned app"
    "cwd (ask_ai W query app) = cwd app"
    "exited (ask_ai W query app) = exited app"
    "requests (ask_ai W query app) = requests app @ snd (ask W (ai app) query)"
    by simp_all
qed

lemma submit_run:
  assumes "strip v = command" "command \<noteq> []" "\<not> startswith command ''?''"
    "\<not> startswith (lower command) ''/ask ''"
  shows "on_input_submitted W v app =
     (run_command W command app)
       \<lparr>command_input := (command_input app)\<lparr>input_value := [],
                              history := history (command_input app) @ [command],
                              history_index := -1\<rparr>,
        suggestions_visible := False\<rparr>"
  using assms by (simp add: on_input_submitted_def Let_def run_command_frame)

lemma submit_ask:
  assumes "strip v = command" "command \<noteq> []"
    and "startswith command ''?'' \<and> query = strip (drop 1 command)
         \<or> \<not> startswith command ''?'' \<and> startswith (lower command) ''/ask ''
            \<and> query = strip (drop 5 command)"
    and "query \<noteq> []"
  shows "on_input_submitted W v app =
     (ask_ai W query app)
       \<lparr>command_input := (command_input app)\<lparr>input_value := [],
                              history := history (command_input app) @ [command],
                              history_index := -1\<rparr>,
        suggestions_visible := False\<rparr>"
  using assms by (auto simp: on_input_submitted_def Let_def ask_ai_frame)

lemma submit_nothing:
  assumes "strip v = command" "command \<noteq> []" "startswith command ''?''"
    "strip (drop 1 command) = []"
  shows "on_input_submitted W v app =
     app\<lparr>command_input := (command_input app)\<lparr>input_value := [],
                              history := history (command_input app) @ [command],
                              history_index := -1\<rparr>,
         suggestions_visible := False\<rparr>"
  using assms by (simp add: on_input_submitted_def Let_def)

lemma submit_history:
  assumes "strip v \<noteq> []"
  shows "history (command_input (on_input_submitted W v app)) =
         history (command_input app) @ [strip v]"
  using assms by (simp add: on_input_submitted_def Let_def run_command_frame ask_ai_frame)

lemma cd_line:
  "startswith (''cd '' @ rest) ''cd ''" "\<not> startswith (''cd '' @ rest) ''?''"
  "\<not> startswith (lower (''cd '' @ rest)) ''/ask ''" "drop 3 (''cd '' @ rest) = rest"
  by (simp_all add: startswith_def lower_def)

text \<open>
  C4. A submitted line \<open>cd <path>\<close> whose directory change fails writes, after the header,
  exactly one error event that holds the failure description; the working directory stays
  as it was, no process is spawned, no request is sent and the application is not asked to
  exit. When the change succeeds the working directory becomes the new directory and a
  confirmation event is written.
\<close>

theorem cd_submission:
  assumes "strip v = ''cd '' @ rest"
  shows "(\<forall>e. chdir W (cd_target W (strip rest)) = Inl e \<longrightarrow>
            output_log (on_input_submitted W v app) =
              output_log app
              @ [Text (''\<newline>  '' @ cwd app @ ''\<newline>'') BoldCyan,
                 Text (''  $ cd '' @ rest @ ''\<newline>'') BoldGreen,
                 Text (''  Error: '' @ str_exn e @ ''\<newline>'') BoldRed]
            \<and> filter (\<lambda>t. style_of t = BoldRed)
                 (drop (length (output_log app)) (output_log (on_input_submitted W v app))) =
                [Text (''  Error: '' @ str_exn e @ ''\<newline>'') BoldRed]
            \<and> contains (str_exn e) (''  Error: '' @ str_exn e @ ''\<newline>'')
            \<and> cwd (on_input_submitted W v app) = cwd app
            \<and> spawned (on_input_submitted W v app) = spawned app
            \<and> requests (on_input_submitted W v app) = requests app
            \<and> exited (on_input_submitted W v app) = exited app)
       \<and> (\<forall>dir. chdir W (cd_target W (strip rest)) = Inr dir \<longrightarrow>
            output_log (on_input_submitted W v app) =
              output_log app
              @ [Text (''\<newline>  '' @ cwd app @ ''\<newline>'') BoldCyan,
                 Text (''  $ cd '' @ rest @ ''\<newline>'') BoldGreen,
                 Text (''  Changed to: '' @ dir @ ''\<newline>'') Dim]
            \<and> cwd (on_input_submitted W v app) = dir
            \<and> spawned (on_input_submitted W v app) = spawned app
            \<and> requests (on_input_submitted W v app) = requests app
            \<and> exited (on_input_submitted W v app) = exited app)"
proof -
  have ne: "''cd '' @ rest \<noteq> []" by simp
  note sub = submit_run[OF assms ne cd_line(2) cd_line(3), of W app]
  note run = run_command_cd[OF cd_line(1), of W rest app]
  have c: "\<And>e. contains (str_exn e) (''  Error: '' @ str_exn e @ ''\<newline>'')"
    by (rule contains_infix)
  show ?thesis
    unfolding sub run cd_line(4) using c by (auto simp del: contains.simps)
qed

theorem cd_submission_witness:
  "cwd (on_input_submitted world0 ''cd /does/not/exist'' app0) = cwd app0
   \<and> output_log (on_input_submitted world0 ''cd /does/not/exist'' app0) =
       [Text ''\<newline>  /home/user\<newline>'' BoldCyan, Text ''  $ cd /does/not/exist\<newline>'' BoldGreen,
        Text ''  Error: [Errno 2] No such file or directory: /does/not/exist\<newline>'' BoldRed]
   \<and> cwd (on_input_submitted world0 ''  cd /tmp '' app0) = ''/tmp''"
proof -
  have s1: "strip ''cd /does/not/exist'' = ''cd '' @ ''/does/not/exist''" by code_simp
  have s2: "strip ''  cd /tmp '' = ''cd '' @ ''/tmp''" by code_simp
  have t1: "cd_target world0 (strip ''/does/not/exist'') = ''/does/not/exist''" by code_simp
  have t2: "cd_target world0 (strip ''/tmp'') = ''/tmp''" by code_simp
  have c1: "chdir world0 (cd_target world0 (strip ''/does/not/exist'')) =
      Inl (OtherException ''[Errno 2] No such file or directory: /does/not/exist'')"
    unfolding t1 by (simp add: world0_def)
  have c2: "chdir world0 (cd_target world0 (strip ''/tmp'')) = Inr ''/tmp''"
    unfolding t2 by (simp add: world0_def)
  have a0: "cwd app0 = ''/home/user''" "output_log app0 = []"
    by (simp_all add: app0_def DreyCLI_init_def)
  from cd_submission[OF s1, of world0 app0, THEN conjunct1, rule_format, OF c1]
       cd_submission[OF s2, of world0 app0, THEN conjunct2, rule_format, OF c2]
  show ?thesis by (simp add: a0)
qed

lemma ask_prefix:
  assumes "lower p = ''/ask ''"
  shows "\<not> startswith (p @ r) ''?''" "startswith (lower (p @ r)) ''/ask ''" "drop 5 (p @ r) = r"
proof -
  from assms have "length (lower p) = 5" by simp
  then have len: "length p = 5" by (simp add: lower_def)
  then obtain a p' where p: "p = a # p'" by (cases p) auto
  with assms have "lower_char a = CHR ''/''" by (simp add: lower_def)
  then have "a \<noteq> CHR ''?''" by auto
  with p show "\<not> startswith (p @ r) ''?''" by (simp add: startswith_def)
  have "lower (p @ r) = ''/ask '' @ lower r" using assms by (simp add: lower_def)
  then show "startswith (lower (p @ r)) ''/ask ''" by (simp add: startswith_def)
  from len show "drop 5 (p @ r) = r" by simp
qed

lemma ask_sends:
  "api_key a \<noteq> [] \<Longrightarrow> snd (ask W a question) = [ask_request a question]"
  by (simp add: ask_def Let_def)

text \<open>
  C1. A submitted line whose trimmed text is a prefix \<open>p\<close> followed by \<open>r\<close>, where \<open>p\<close> is
  \<open>?\<close> or is \<open>/ask \<close> up to letter case, and where \<open>r\<close> trimmed is not empty, is an AI query:
  the handler runs \<open>ask_ai\<close> on the trimmed \<open>r\<close> and nothing else, so the log gets the query
  header with that question, the assistant is asked exactly that question (it is the user
  content of the request when a credential is set), and no process is spawned.
\<close>

theorem ai_query_submission:
  assumes "strip v = p @ r" and "p = ''?'' \<or> lower p = ''/ask ''" and "strip r \<noteq> []"
  shows "on_input_submitted W v app =
           (ask_ai W (strip r) app)
             \<lparr>command_input := (command_input app)\<lparr>input_value := [],
                                    history := history (command_input app) @ [p @ r],
                                    history_index := -1\<rparr>,
              suggestions_visible := False\<rparr>
         \<and> requests (on_input_submitted W v app) =
             requests app @ snd (ask W (ai app) (strip r))
         \<and> (api_key (ai app) \<noteq> [] \<longrightarrow>
              requests (on_input_submitted W v app) =
                requests app @ [ask_request (ai app) (strip r)])
         \<and> spawned (on_input_submitted W v app) = spawned app
         \<and> (\<exists>ts. output_log (on_input_submitted W v app) =
                output_log app
                @ [Text (''\<newline>  '' @ robot @ '' AI Query:\<newline>'') BoldMagenta,
                   Text (''  ? '' @ strip r @ ''\<newline>\<newline>'') BoldYellow] @ ts)"
proof -
  have ne: "p @ r \<noteq> []" using assms(2) by (auto simp: lower_def)
  have which: "startswith (p @ r) ''?'' \<and> strip r = strip (drop 1 (p @ r))
         \<or> \<not> startswith (p @ r) ''?'' \<and> startswith (lower (p @ r)) ''/ask ''
            \<and> strip r = strip (drop 5 (p @ r))"
  proof (cases "p = ''?''")
    case True
    then show ?thesis by (simp add: startswith_def)
  next
    case False
    with assms(2) have "lower p = ''/ask ''" by simp
    from ask_prefix[OF this, of r] show ?thesis by simp
  qed
  note sub = submit_ask[OF assms(1) ne which assms(3), of W app]
  obtain ts where ts: "ask_ai W (strip r) app =
     app\<lparr>output_log := output_log app
             @ [Text (''\<newline>  '' @ robot @ '' AI Query:\<newline>'') BoldMagenta,
                Text (''  ? '' @ strip r @ ''\<newline>\<newline>'') BoldYellow] @ ts,
          requests := requests app @ snd (ask W (ai app) (strip r))\<rparr>"
    using ask_ai_log by blast
  have log: "\<exists>ts. output_log (on_input_submitted W v app) =
                output_log app
                @ [Text (''\<newline>  '' @ robot @ '' AI Query:\<newline>'') BoldMagenta,
                   Text (''  ? '' @ strip r @ ''\<newline>\<newline>'') BoldYellow] @ ts"
    unfolding sub by (subst ts) simp
  have rq: "requests (on_input_submitted W v app) =
             requests app @ snd (ask W (ai app) (strip r))"
    unfolding sub by (simp add: ask_ai_frame)
  have sp: "spawned (on_input_submitted W v app) = spawned app"
    unfolding sub by (simp add: ask_ai_frame)
  from sub log rq sp ask_sends[of "ai app" W "strip r"] show ?thesis by simp
qed

theorem ai_query_submission_witness:
  "requests (on_input_submitted world0 ''  ?  disk usage '' app0) =
     [ask_request (ai app0) ''disk usage'']
   \<and> requests (on_input_submitted world0 ''/Ask how do I list files'' app0) =
     [ask_request (ai app0) ''how do I list files'']"
proof -
  have s1: "strip ''  ?  disk usage '' = ''?'' @ ''  disk usage''" by code_simp
  have r1: "strip ''  disk usage'' = ''disk usage''" by code_simp
  have s2: "strip ''/Ask how do I list files'' = ''/Ask '' @ ''how do I list files''" by code_simp
  have r2: "strip ''how do I list files'' = ''how do I list files''" by code_simp
  have l2: "''/Ask '' = ''?'' \<or> lower ''/Ask '' = ''/ask ''" by code_simp
  have key: "api_key (ai app0) \<noteq> []" "requests app0 = []"
    by (simp_all add: app0_def DreyCLI_init_def AIAssistant_init_def)
  have n1: "strip ''  disk usage'' \<noteq> []" unfolding r1 by simp
  have n2: "strip ''how do I list files'' \<noteq> []" unfolding r2 by simp
  have q1: "''?'' = ''?'' \<or> lower ''?'' = ''/ask ''" by simp
  have a: "requests (on_input_submitted world0 ''  ?  disk usage '' app0) =
      requests app0 @ [ask_request (ai app0) (strip ''  disk usage'')]"
    by (rule ai_query_submission[OF s1 q1 n1, of world0 app0, THEN conjunct2, THEN conjunct2,
          THEN conjunct1, rule_format, OF key(1)])
  have b: "requests (on_input_submitted world0 ''/Ask how do I list files'' app0) =
      requests app0 @ [ask_request (ai app0) (strip ''how do I list files'')]"
    by (rule ai_query_submission[OF s2 l2 n2, of world0 app0, THEN conjunct2, THEN conjunct2,
          THEN conjunct1, rule_format, OF key(1)])
  from a b show ?thesis unfolding r1 r2 key(2) by simp
qed

text \<open>
  C2. A submitted line that is not empty after trimming and starts neither with \<open>?\<close> nor,
  up to letter case, with \<open>/ask \<close> goes to \<open>run_command\<close> with the whole trimmed line and
  sends no request. There \<open>cd \<close> changes the directory and spawns nothing, \<open>clear\<close> empties
  the log, \<open>exit\<close> and \<open>quit\<close> ask the application to exit, and every other line is given
  to the host shell whole, in the current directory. A line that starts with \<open>?\<close> and has
  nothing after it but whitespace runs nothing: it is only recorded in the history.
\<close>

theorem command_submission:
  assumes "strip v = command" and "command \<noteq> []"
  shows "(\<not> startswith command ''?'' \<and> \<not> startswith (lower command) ''/ask '' \<longrightarrow>
            on_input_submitted W v app =
              (run_command W command app)
                \<lparr>command_input := (command_input app)\<lparr>input_value := [],
                                       history := history (command_input app) @ [command],
                                       history_index := -1\<rparr>,
                 suggestions_visible := False\<rparr>
            \<and> requests (on_input_submitted W v app) = requests app
            \<and> (startswith command ''cd '' \<longrightarrow>
                  spawned (on_input_submitted W v app) = spawned app
                  \<and> exited (on_input_submitted W v app) = exited app
                  \<and> cwd (on_input_submitted W v app) =
                      (case chdir W (cd_target W (strip (drop 3 command))) of
                         Inl e \<Rightarrow> cwd app | Inr dir \<Rightarrow> dir))
            \<and> (command = ''clear'' \<longrightarrow>
                  output_log (on_input_submitted W v app) = []
                  \<and> spawned (on_input_submitted W v app) = spawned app
                  \<and> exited (on_input_submitted W v app) = exited app
                  \<and> cwd (on_input_submitted W v app) = cwd app)
            \<and> (command = ''exit'' \<or> command = ''quit'' \<longrightarrow>
                  exited (on_input_submitted W v app)
                  \<and> spawned (on_input_submitted W v app) = spawned app
                  \<and> cwd (on_input_submitted W v app) = cwd app)
            \<and> (\<not> startswith command ''cd '' \<and> command \<noteq> ''clear'' \<and> command \<noteq> ''exit''
                  \<and> command \<noteq> ''quit'' \<longrightarrow>
                  spawned (on_input_submitted W v app) = spawned app @ [(command, cwd app)]
                  \<and> exited (on_input_submitted W v app) = exited app
                  \<and> cwd (on_input_submitted W v app) = cwd app))
       \<and> (startswith command ''?'' \<and> strip (drop 1 command) = [] \<longrightarrow>
            on_input_submitted W v app =
              app\<lparr>command_input := (command_input app)\<lparr>input_value := [],
                                       history := history (command_input app) @ [command],
                                       history_index := -1\<rparr>,
                  suggestions_visible := False\<rparr>)"
proof (intro conjI impI)
  assume "startswith command ''?'' \<and> strip (drop 1 command) = []"
  then show "on_input_submitted W v app =
              app\<lparr>command_input := (command_input app)\<lparr>input_value := [],
                                       history := history (command_input app) @ [command],
                                       history_index := -1\<rparr>,
                  suggestions_visible := False\<rparr>"
    using submit_nothing[OF assms, of W app] by simp
next
  assume a: "\<not> startswith command ''?'' \<and> \<not> startswith (lower command) ''/ask ''"
  then have sub: "on_input_submitted W v app =
              (run_command W command app)
                \<lparr>command_input := (command_input app)\<lparr>input_value := [],
                                       history := history (command_input app) @ [command],
                                       history_index := -1\<rparr>,
                 suggestions_visible := False\<rparr>"
    using submit_run[OF assms, of W app] by simp
  show "on_input_submitted W v app =
              (run_command W command app)
                \<lparr>command_input := (command_input app)\<lparr>input_value := [],
                                       history := history (command_input app) @ [command],
                                       history_index := -1\<rparr>,
                 suggestions_visible := False\<rparr>" by (rule sub)
  show "requests (on_input_submitted W v app) = requests app"
    unfolding sub by (simp add: run_command_frame)
  {
    assume cd: "startswith command ''cd ''"
    show "spawned (on_input_submitted W v app) = spawned app"
      unfolding sub run_command_cd[OF cd] by (simp split: sum.splits)
    show "exited (on_input_submitted W v app) = exited app"
      unfolding sub run_command_cd[OF cd] by (simp split: sum.splits)
    show "cwd (on_input_submitted W v app) =
                      (case chdir W (cd_target W (strip (drop 3 command))) of
                         Inl e \<Rightarrow> cwd app | Inr dir \<Rightarrow> dir)"
      unfolding sub run_command_cd[OF cd] by (simp split: sum.splits)
  }
  {
    assume cl: "command = ''clear''"
    show "output_log (on_input_submitted W v app) = []"
      "spawned (on_input_submitted W v app) = spawned app"
      "exited (on_input_submitted W v app) = exited app"
      "cwd (on_input_submitted W v app) = cwd app"
      unfolding sub cl run_command_clear by simp_all
  }
  {
    assume ex: "command = ''exit'' \<or> command = ''quit''"
    show "exited (on_input_submitted W v app)"
      "spawned (on_input_submitted W v app) = spawned app"
      "cwd (on_input_submitted W v app) = cwd app"
      unfolding sub run_command_exit[OF ex] by simp_all
  }
  {
    assume sh: "\<not> startswith command ''cd '' \<and> command \<noteq> ''clear'' \<and> command \<noteq> ''exit''
                  \<and> command \<noteq> ''quit''"
    then have sh': "\<not> startswith command ''cd ''" "command \<noteq> ''clear''" "command \<noteq> ''exit''"
      "command \<noteq> ''quit''" by simp_all
    show "spawned (on_input_submitted W v app) = spawned app @ [(command, cwd app)]"
      "exited (on_input_submitted W v app) = exited app"
      "cwd (on_input_submitted W v app) = cwd app"
      unfolding sub run_command_shell[OF sh'] by (simp_all add: Let_def split: proc.splits)
  }
qed

theorem command_submission_witness:
  "spawned (on_input_submitted world0 ''ls -la'' app0) = [(''ls -la'', ''/home/user'')]
   \<and> output_log (on_input_submitted world0 '' clear'' app0) = []
   \<and> exited (on_input_submitted world0 ''exit'' app0)
   \<and> cwd (on_input_submitted world0 ''cd /tmp'' app0) = ''/tmp''
   \<and> history (command_input (on_input_submitted world0 ''? '' app0)) = [''?'']"
proof -
  have a0: "cwd app0 = ''/home/user''" "spawned app0 = []" "history (command_input app0) = []"
    by (simp_all add: app0_def DreyCLI_init_def CommandInput_init_def load_history_def)
  have s1: "strip ''ls -la'' = ''ls -la''" and s2: "strip '' clear'' = ''clear''"
    and s3: "strip ''exit'' = ''exit''" and s4: "strip ''cd /tmp'' = ''cd /tmp''"
    and s5: "strip ''? '' = ''?''"
    by code_simp+
  have n1: "\<not> startswith ''ls -la'' ''?'' \<and> \<not> startswith (lower ''ls -la'') ''/ask ''"
    and n2: "\<not> startswith ''clear'' ''?'' \<and> \<not> startswith (lower ''clear'') ''/ask ''"
    and n3: "\<not> startswith ''exit'' ''?'' \<and> \<not> startswith (lower ''exit'') ''/ask ''"
    and n4: "\<not> startswith ''cd /tmp'' ''?'' \<and> \<not> startswith (lower ''cd /tmp'') ''/ask ''"
    by code_simp+
  have k1: "\<not> startswith ''ls -la'' ''cd '' \<and> ''ls -la'' \<noteq> ''clear'' \<and> ''ls -la'' \<noteq> ''exit''
      \<and> ''ls -la'' \<noteq> ''quit''"
    by code_simp
  have k4: "startswith ''cd /tmp'' ''cd ''" by code_simp
  have k5: "startswith ''?'' ''?'' \<and> strip (drop 1 ''?'') = []" by code_simp
  have t4: "chdir world0 (cd_target world0 (strip (drop 3 ''cd /tmp''))) = Inr ''/tmp''"
    by code_simp
  have e1: "''ls -la'' \<noteq> ([]::string)" and e2: "''clear'' \<noteq> ([]::string)"
    and e3: "''exit'' \<noteq> ([]::string)" and e4: "''cd /tmp'' \<noteq> ([]::string)"
    and e5: "''?'' \<noteq> ([]::string)"
    by simp_all
  have c1: "spawned (on_input_submitted world0 ''ls -la'' app0) = spawned app0 @ [(''ls -la'', cwd app0)]"
    using command_submission[OF s1 e1, of world0 app0] n1 k1 by blast
  have c2: "output_log (on_input_submitted world0 '' clear'' app0) = []"
    using command_submission[OF s2 e2, of world0 app0] n2 by blast
  have c3: "exited (on_input_submitted world0 ''exit'' app0)"
    using command_submission[OF s3 e3, of world0 app0] n3 by blast
  have "cwd (on_input_submitted world0 ''cd /tmp'' app0) =
      (case chdir world0 (cd_target world0 (strip (drop 3 ''cd /tmp''))) of
         Inl e \<Rightarrow> cwd app0 | Inr dir \<Rightarrow> dir)"
    using command_submission[OF s4 e4, of world0 app0] n4 k4 by blast
  then have c4: "cwd (on_input_submitted world0 ''cd /tmp'' app0) = ''/tmp''"
    unfolding t4 by simp
  have "on_input_submitted world0 ''? '' app0 =
      app0\<lparr>command_input := (command_input app0)\<lparr>input_value := [],
                                history := history (command_input app0) @ [''?''],
                                history_index := -1\<rparr>,
           suggestions_visible := False\<rparr>"
    using command_submission[OF s5 e5, of world0 app0] k5 by blast
  then have c5: "history (command_input (on_input_submitted world0 ''? '' app0)) =
      history (command_input app0) @ [''?'']"
    by simp
  from c1 c2 c3 c4 c5 show ?thesis by (simp add: a0)
qed

theorem bare_question_mark_counterexample:
  "strip ''?'' = ''?'' \<and> strip (drop 1 ''?'') = []
   \<and> spawned (on_input_submitted world0 ''?'' app0) = []
   \<and> output_log (on_input_submitted world0 ''?'' app0) = []
   \<and> spawned (on_input_submitted world0 ''?'' app0) \<noteq> spawned app0 @ [(''?'', cwd app0)]"
proof -
  have s: "strip ''?'' = ''?''" "strip (drop 1 ''?'') = []" by code_simp+
  have ne: "''?'' \<noteq> ([]::string)" by simp
  have st: "startswith ''?'' ''?''" by (simp add: startswith_def)
  have a0: "spawned app0 = []" "output_log app0 = []"
    by (simp_all add: app0_def DreyCLI_init_def)
  note sub = submit_nothing[OF s(1) ne st s(2), of world0 app0]
  show ?thesis unfolding sub using s a0 by simp
qed

subsection \<open>The assistant without a credential\<close>

text \<open>
  C3. With no credential configured, \<open>ask\<close> yields the four fragments of the
  configuration help, in this order, and ends; no request is sent.
\<close>

theorem ask_without_credential:
  assumes "api_key a = []"
  shows "ask W a question =
    ([PyStr (warning_sign
         @ ''  AI not configured. Set ANTHROPIC_API_KEY environment variable.\<newline>''),
      PyStr ''\<newline>To set it up:\<newline>'',
      PyStr ''  export ANTHROPIC_API_KEY='your-api-key'\<newline>'',
      PyStr ''\<newline>Get your API key from: https://console.anthropic.com/\<newline>''], [])"
  using assms by (simp add: ask_def)

theorem ask_without_credential_witness:
  "length (fst (ask world0 (AIAssistant_init []) ''how do I list files'')) = 4
   \<and> snd (ask world0 (AIAssistant_init []) ''how do I list files'') = []"
proof -
  have "api_key (AIAssistant_init []) = []" by (simp add: AIAssistant_init_def)
  from ask_without_credential[OF this, of world0 "''how do I list files''"]
  show ?thesis by simp
qed

theorem ask_without_credential_counterexample:
  "length (fst (ask world0 (AIAssistant_init []) ''how do I list files'')) = 4
   \<and> length (fst (ask world0 (AIAssistant_init []) ''how do I list files'')) \<noteq> 1"
  by (simp add: ask_def AIAssistant_init_def)

subsection \<open>Suggestions\<close>

text \<open>What the suggestion list holds, for every input and history.\<close>

lemma history_matches_appends:
  "\<exists>new. history_matches t ms hs = ms @ new \<and> set new \<subseteq> set hs \<and> distinct new
     \<and> set new \<inter> set ms = {} \<and> (\<forall>h\<in>set new. contains t (lower h))"
proof (induction hs arbitrary: ms)
  case Nil
  show ?case by simp
next
  case (Cons h hs)
  show ?case
  proof (cases "contains t (lower h) \<and> h \<notin> set ms")
    case False
    from Cons[of ms] obtain new where "history_matches t ms hs = ms @ new" "set new \<subseteq> set hs"
      "distinct new" "set new \<inter> set ms = {}" "\<forall>h\<in>set new. contains t (lower h)" by blast
    with False show ?thesis by (intro exI[of _ new]) auto
  next
    case True
    from Cons[of "ms @ [h]"] obtain new where n: "history_matches t (ms @ [h]) hs = (ms @ [h]) @ new"
      "set new \<subseteq> set hs" "distinct new" "set new \<inter> set (ms @ [h]) = {}"
      "\<forall>h\<in>set new. contains t (lower h)" by blast
    with True show ?thesis by (intro exI[of _ "h # new"]) auto
  qed
qed

lemma update_suggestions_shape:
  "length (suggestions (update_suggestions txt app)) \<le> 8
   \<and> (txt = [] \<or> startswith txt ''?'' \<longrightarrow> suggestions (update_suggestions txt app) = [])
   \<and> (txt \<noteq> [] \<and> \<not> startswith txt ''?'' \<longrightarrow>
        (\<exists>new. suggestions (update_suggestions txt app) =
                 take 8 ([cmd \<leftarrow> ALL_COMMANDS. contains (lower txt) (lower cmd)] @ new)
           \<and> set new \<subseteq> set (slice_last 50 (history (command_input app)))
           \<and> distinct new
           \<and> set new \<inter> set [cmd \<leftarrow> ALL_COMMANDS. contains (lower txt) (lower cmd)] = {}))"
proof -
  obtain new where n: "history_matches (lower txt)
        [cmd \<leftarrow> ALL_COMMANDS. contains (lower txt) (lower cmd)]
        (rev (slice_last 50 (history (command_input app)))) =
      [cmd \<leftarrow> ALL_COMMANDS. contains (lower txt) (lower cmd)] @ new"
    "set new \<subseteq> set (rev (slice_last 50 (history (command_input app))))" "distinct new"
    "set new \<inter> set [cmd \<leftarrow> ALL_COMMANDS. contains (lower txt) (lower cmd)] = {}"
    using history_matches_appends by blast
  have s: "suggestions (update_suggestions txt app) =
      (if txt = [] \<or> startswith txt ''?'' then []
       else take 8 ([cmd \<leftarrow> ALL_COMMANDS. contains (lower txt) (lower cmd)] @ new))"
    using n(1) by (auto simp: update_suggestions_def Let_def)
  have "length (suggestions (update_suggestions txt app)) \<le> 8"
    unfolding s by (simp del: take_append)
  moreover have "txt = [] \<or> startswith txt ''?'' \<longrightarrow> suggestions (update_suggestions txt app) = []"
    unfolding s by simp
  moreover have "txt \<noteq> [] \<and> \<not> startswith txt ''?'' \<longrightarrow>
        (\<exists>new. suggestions (update_suggestions txt app) =
                 take 8 ([cmd \<leftarrow> ALL_COMMANDS. contains (lower txt) (lower cmd)] @ new)
           \<and> set new \<subseteq> set (slice_last 50 (history (command_input app)))
           \<and> distinct new
           \<and> set new \<inter> set [cmd \<leftarrow> ALL_COMMANDS. contains (lower txt) (lower cmd)] = {})"
    using s n(2,3,4) by auto
  ultimately show ?thesis by blast
qed

text \<open>
  C7. The catalog lists \<open>htop\<close> under two categories (and \<open>ls -la\<close> too), and only history
  entries are checked against the matches collected so far: for the input \<open>htop\<close> the
  suggestion list holds \<open>htop\<close> twice.
\<close>

theorem update_suggestions_duplicate:
  "suggestions (update_suggestions ''htop'' app0) = [''htop'', ''htop'']
   \<and> \<not> distinct (suggestions (update_suggestions ''htop'' app0))"
proof -
  have "suggestions (update_suggestions ''htop'' app0) = [''htop'', ''htop'']"
    by code_simp
  then show ?thesis by simp
qed

subsection \<open>The size of the history\<close>

lemma length_kept: "length [f x. x \<leftarrow> xs, P x] \<le> length xs"
  by (induction xs) auto

lemma kept_replicate: "P x \<Longrightarrow> [f y. y \<leftarrow> replicate n x, P y] = replicate n (f x)"
  by (induction n) auto

lemma history_import:
  "length (history (CommandInput_init file)) \<le> 500"
proof (cases "file")
  case None
  then show ?thesis by (simp add: CommandInput_init_def load_history_def)
next
  case (Some res)
  show ?thesis
  proof (cases res)
    case (Inl e)
    with Some show ?thesis by (simp add: CommandInput_init_def load_history_def)
  next
    case (Inr lines)
    have "length [strip line. line \<leftarrow> slice_last 500 lines, strip line \<noteq> []]
        \<le> length (slice_last 500 lines)"
      by (rule length_kept)
    also have "\<dots> \<le> 500" by (simp add: slice_last_def)
    finally show ?thesis using Some Inr by (simp add: CommandInput_init_def load_history_def)
  qed
qed

text \<open>
  C9. The import of the history file leaves at most 500 entries. Every submitted line that
  is not empty after trimming is appended to the history and nothing is removed, so the
  history grows by one entry with each submission.
\<close>

theorem history_growth:
  "length (history (CommandInput_init file)) \<le> 500
   \<and> (strip v \<noteq> [] \<longrightarrow>
        history (command_input (on_input_submitted W v app)) =
          history (command_input app) @ [strip v])"
  using history_import submit_history by blast

theorem history_growth_witness:
  "history (command_input (on_input_submitted world0 '' ls '' app0)) = [''ls'']"
proof -
  have s: "strip '' ls '' = ''ls''" by code_simp
  have a0: "history (command_input app0) = []"
    by (simp add: app0_def DreyCLI_init_def CommandInput_init_def load_history_def)
  have "strip '' ls '' \<noteq> []" unfolding s by simp
  with history_growth[of None "'' ls ''" world0 app0]
  have "history (command_input (on_input_submitted world0 '' ls '' app0)) =
          history (command_input app0) @ [strip '' ls '']" by blast
  then show ?thesis unfolding s a0 by simp
qed

theorem history_growth_counterexample:
  "length (history (command_input
       (DreyCLI_init ''/home/user'' ''sk-test'' (Some (Inr (replicate 500 ''ls\<newline>'')))))) = 500
   \<and> length (history (command_input
       (on_input_submitted world0 ''pwd''
          (DreyCLI_init ''/home/user'' ''sk-test'' (Some (Inr (replicate 500 ''ls\<newline>''))))))) = 501"
proof -
  have s: "strip ''ls\<newline>'' = ''ls''" "strip ''pwd'' = ''pwd''" by code_simp+
  have ne: "strip ''ls\<newline>'' \<noteq> []" "strip ''pwd'' \<noteq> []" unfolding s by simp_all
  have h: "history (command_input
       (DreyCLI_init ''/home/user'' ''sk-test'' (Some (Inr (replicate 500 ''ls\<newline>''))))) =
       replicate 500 ''ls''"
    using kept_replicate[of "\<lambda>line. strip line \<noteq> []" "''ls\<newline>''" strip 500] ne(1)
    by (simp add: DreyCLI_init_def CommandInput_init_def load_history_def slice_last_def s)
  show ?thesis unfolding submit_history[OF ne(2)] h by simp
qed

subsection \<open>History recall\<close>

lemma index_from_end:
  assumes "k < length h"
  shows "index W h (- (int k + 1)) = Inr (rev h ! k)"
proof -
  have "nat (int (length h) + (- (int k + 1))) = length h - Suc k" using assms by simp
  moreover have "rev h ! k = h ! (length h - Suc k)"
    using assms by (simp add: rev_nth)
  moreover have "- (int k + 1) < 0" "- int (length h) \<le> - (int k + 1)" using assms by simp_all
  ultimately show ?thesis unfolding index_def by simp
qed

lemma recalled_history [simp]: "history (recalled ci m) = history ci"
  by (simp add: recalled_def)

lemma up_fresh:
  assumes "history ci \<noteq> []" "history_index ci = -1"
  shows "on_key W Up ci = Inr (recalled ci 1)"
proof -
  have "0 < length (history ci)" using assms(1) by simp
  from index_from_end[OF this, of W] have "index W (history ci) (- 1) = Inr (rev (history ci) ! 0)"
    by simp
  with assms show ?thesis by (simp add: recalled_def)
qed

lemma up_step:
  assumes "Suc k < length (history ci)"
  shows "on_key W Up (recalled ci (Suc k)) = Inr (recalled ci (Suc (Suc k)))"
proof -
  have "history ci \<noteq> []" using assms by auto
  with index_from_end[OF assms, of W] assms show ?thesis by (simp add: recalled_def)
qed

lemma up_top:
  assumes "m = length (history ci)"
  shows "on_key W Up (recalled ci m) = Inr (recalled ci m)"
  using assms by (simp add: recalled_def)

lemma down_step:
  assumes "Suc (Suc k) \<le> length (history ci)"
  shows "on_key W Down (recalled ci (Suc (Suc k))) = Inr (recalled ci (Suc k))"
proof -
  have "k < length (history ci)" using assms by simp
  from index_from_end[OF this, of W] show ?thesis by (simp add: recalled_def)
qed

lemma down_exit:
  "on_key W Down (recalled ci 1) =
     Inr (ci\<lparr>history_index := -1, input_value := [],
             cursor_position := length (rev (history ci) ! 0)\<rparr>)"
  by (simp add: recalled_def)

lemma down_idle: "history_index x = -1 \<Longrightarrow> on_key W Down x = Inr x"
  by simp

lemma on_keys_append:
  "on_keys W (ks @ ks') ci =
     (case on_keys W ks ci of Inl e \<Rightarrow> Inl e | Inr c \<Rightarrow> on_keys W ks' c)"
  by (induction ks arbitrary: ci) (auto split: sum.splits)

lemma on_keys_snoc:
  "on_keys W ks ci = Inr c \<Longrightarrow> on_keys W (ks @ [k]) ci = on_key W k c"
  by (simp add: on_keys_append split: sum.splits)

lemma ups:
  assumes "history ci \<noteq> []" "history_index ci = -1" "1 \<le> K"
  shows "on_keys W (replicate K Up) ci = Inr (recalled ci (min K (length (history ci))))"
  using assms(3)
proof (induction K rule: nat_induct_at_least)
  case base
  have "1 \<le> length (history ci)" using assms(1) by (cases "history ci") auto
  then have "min 1 (length (history ci)) = 1" by simp
  then show ?case using up_fresh[OF assms(1,2), of W] by (simp split: sum.splits)
next
  case (Suc K)
  have rep: "replicate (Suc K) Up = replicate K Up @ [Up]" by (simp add: replicate_append_same)
  note prev = on_keys_snoc[OF Suc.IH, of Up]
  show ?case
  proof (cases "K < length (history ci)")
    case True
    then have mins: "min K (length (history ci)) = K" "min (Suc K) (length (history ci)) = Suc K"
      by simp_all
    obtain k where K: "K = Suc k" using Suc.hyps by (cases K) auto
    have "on_key W Up (recalled ci K) = Inr (recalled ci (Suc K))"
      using up_step[of k ci W] True unfolding K by simp
    then show ?thesis unfolding rep prev mins .
  next
    case False
    then have mins: "min K (length (history ci)) = length (history ci)"
      "min (Suc K) (length (history ci)) = length (history ci)" by simp_all
    have "on_key W Up (recalled ci (length (history ci))) = Inr (recalled ci (length (history ci)))"
      by (rule up_top) simp
    then show ?thesis unfolding rep prev mins .
  qed
qed

lemma downs:
  assumes "m \<le> length (history ci)" "j < m"
  shows "on_keys W (replicate j Down) (recalled ci m) = Inr (recalled ci (m - j))"
  using assms(2)
proof (induction j)
  case 0
  show ?case by simp
next
  case (Suc j)
  have rep: "replicate (Suc j) Down = replicate j Down @ [Down]"
    by (simp add: replicate_append_same)
  from Suc have prev: "on_keys W (replicate j Down) (recalled ci m) = Inr (recalled ci (m - j))"
    by simp
  obtain k where k: "m - j = Suc (Suc k)" using Suc.prems by (cases "m - j"; cases "m - j - 1") auto
  then have "Suc (Suc k) \<le> length (history ci)" "m - Suc j = Suc k" using assms(1) by simp_all
  with down_step[of k ci W] show ?case unfolding rep on_keys_snoc[OF prev] k by simp
qed

lemma downs_out:
  assumes "1 \<le> m" "m \<le> length (history ci)" "m \<le> j"
  shows "on_keys W (replicate j Down) (recalled ci m) =
     Inr (ci\<lparr>history_index := -1, input_value := [],
             cursor_position := length (rev (history ci) ! 0)\<rparr>)"
  using assms(3)
proof (induction j rule: nat_induct_at_least)
  case base
  obtain m' where m: "m = Suc m'" using assms(1) by (cases m) auto
  have rep: "replicate m Down = replicate m' Down @ [Down]"
    unfolding m by (simp add: replicate_append_same)
  have "on_keys W (replicate m' Down) (recalled ci m) = Inr (recalled ci (m - m'))"
    using downs[OF assms(2), of m' W] m by simp
  then have prev: "on_keys W (replicate m' Down) (recalled ci m) = Inr (recalled ci 1)"
    using m by simp
  show ?case unfolding rep on_keys_snoc[OF prev] by (rule down_exit)
next
  case (Suc j)
  have rep: "replicate (Suc j) Down = replicate j Down @ [Down]"
    by (simp add: replicate_append_same)
  show ?case unfolding rep on_keys_snoc[OF Suc.IH] by simp
qed

text \<open>
  C6. From a fresh cursor on a history that is not empty, \<open>K\<close> presses of Up (\<open>K\<close> at
  least 1) show the \<open>K\<close>-th most recent entry, or the oldest one once \<open>K\<close> exceeds the size
  of the history, where further presses change nothing. After them, \<open>j\<close> presses of Down
  walk back through the same entries; the press that passes the most recent entry leaves
  recall with an empty input, and further presses of Down change nothing until Up is pressed
  again, which shows the most recent entry.
\<close>

theorem history_recall:
  assumes "history ci \<noteq> []" and "history_index ci = -1" and "1 \<le> K"
  shows "on_keys W (replicate K Up @ replicate j Down) ci =
           Inr (if j < min K (length (history ci)) then
                  ci\<lparr>history_index := int (min K (length (history ci)) - j) - 1,
                     input_value := rev (history ci) ! (min K (length (history ci)) - j - 1),
                     cursor_position :=
                       length (rev (history ci) ! (min K (length (history ci)) - j - 1))\<rparr>
                else ci\<lparr>history_index := -1, input_value := [],
                        cursor_position := length (rev (history ci) ! 0)\<rparr>)
         \<and> (min K (length (history ci)) \<le> j \<longrightarrow>
              on_keys W (replicate K Up @ replicate j Down @ [Up]) ci =
                Inr (ci\<lparr>history_index := 0, input_value := rev (history ci) ! 0,
                        cursor_position := length (rev (history ci) ! 0)\<rparr>))"
proof -
  define m where "m = min K (length (history ci))"
  have n1: "1 \<le> length (history ci)" using assms(1) by (cases "history ci") auto
  have m1: "1 \<le> m" and mn: "m \<le> length (history ci)" using assms(3) n1 by (simp_all add: m_def)
  note up = ups[OF assms, of W, folded m_def]
  have both: "on_keys W (replicate K Up @ replicate j Down) ci =
      on_keys W (replicate j Down) (recalled ci m)"
    by (simp add: on_keys_append up)
  have first: "on_keys W (replicate K Up @ replicate j Down) ci =
           Inr (if j < m then
                  ci\<lparr>history_index := int (m - j) - 1,
                     input_value := rev (history ci) ! (m - j - 1),
                     cursor_position := length (rev (history ci) ! (m - j - 1))\<rparr>
                else ci\<lparr>history_index := -1, input_value := [],
                        cursor_position := length (rev (history ci) ! 0)\<rparr>)"
  proof (cases "j < m")
    case True
    from downs[OF mn True, of W] True show ?thesis unfolding both by (simp add: recalled_def)
  next
    case False
    then have "m \<le> j" by simp
    from downs_out[OF m1 mn this, of W] False show ?thesis unfolding both by simp
  qed
  have second: "m \<le> j \<longrightarrow>
              on_keys W (replicate K Up @ replicate j Down @ [Up]) ci =
                Inr (ci\<lparr>history_index := 0, input_value := rev (history ci) ! 0,
                        cursor_position := length (rev (history ci) ! 0)\<rparr>)"
  proof
    assume mj: "m \<le> j"
    let ?out = "ci\<lparr>history_index := -1, input_value := [],
                   cursor_position := length (rev (history ci) ! 0)\<rparr>"
    have "on_keys W ((replicate K Up @ replicate j Down) @ [Up]) ci = on_key W Up ?out"
      using first mj by (intro on_keys_snoc) simp
    moreover have "on_key W Up ?out = Inr (recalled ?out 1)"
      by (rule up_fresh) (use assms(1) in simp_all)
    ultimately show "on_keys W (replicate K Up @ replicate j Down @ [Up]) ci =
                Inr (ci\<lparr>history_index := 0, input_value := rev (history ci) ! 0,
                        cursor_position := length (rev (history ci) ! 0)\<rparr>)"
      by (simp add: recalled_def)
  qed
  from first second show ?thesis unfolding m_def by blast
qed

theorem history_recall_witness:
  "on_keys world0 (replicate 5 Up @ replicate 1 Down)
     \<lparr>input_value = [], cursor_position = 0, history = [''a'', ''b'', ''c''], history_index = -1\<rparr>
   = Inr \<lparr>input_value = ''b'', cursor_position = 1, history = [''a'', ''b'', ''c''],
          history_index = 1\<rparr>
   \<and> on_keys world0 (replicate 1 Up @ replicate 2 Down @ [Up])
     \<lparr>input_value = [], cursor_position = 0, history = [''a'', ''b'', ''c''], history_index = -1\<rparr>
   = Inr \<lparr>input_value = ''c'', cursor_position = 1, history = [''a'', ''b'', ''c''],
          history_index = 0\<rparr>"
proof -
  let ?ci = "\<lparr>input_value = [], cursor_position = 0, history = [''a'', ''b'', ''c''],
              history_index = -1\<rparr>"
  have h: "history ?ci \<noteq> []" "history_index ?ci = -1" "(1::nat) \<le> 5" "(1::nat) \<le> 1"
    by simp_all
  have m: "min 1 (length (history ?ci)) \<le> (2::nat)" by simp
  from history_recall[OF h(1,2,3), of world0 1, THEN conjunct1]
    history_recall[OF h(1,2,4), of world0 2, THEN conjunct2, rule_format, OF m]
  show ?thesis by simp
qed

subsection \<open>The streamed response\<close>

lemma key_in_items: "(k \<in> fst ` set kvs) = (map_of kvs k \<noteq> None)"
  by (simp add: map_of_eq_None_iff)

lemma on_event_structured:
  assumes "map_of kvs ''type'' = Some (PyStr ''content_block_delta'') \<longrightarrow>
             (case map_of kvs ''delta'' of
                None \<Rightarrow> True | Some (PyDict d) \<Rightarrow> True | Some _ \<Rightarrow> False)"
  shows "on_event W (PyDict kvs) = Inr (delta_text (PyDict kvs))"
proof (cases "map_of kvs ''type'' = Some (PyStr ''content_block_delta'')")
  case False
  then show ?thesis
    by (auto simp: on_event_def dict_get_def delta_text_def split: option.splits)
next
  case True
  show ?thesis
  proof (cases "map_of kvs ''delta''")
    case None
    with True show ?thesis
      by (simp add: on_event_def dict_get_def delta_text_def py_in_def)
  next
    case (Some dl)
    with assms True obtain d where d: "dl = PyDict d" by (cases dl) auto
    show ?thesis
    proof (cases "map_of d ''text''")
      case None
      with True Some d show ?thesis
        by (simp add: on_event_def dict_get_def delta_text_def py_in_def key_in_items)
    next
      case (Some v)
      with True \<open>map_of kvs ''delta'' = Some dl\<close> d show ?thesis
        by (simp add: on_event_def dict_get_def delta_text_def py_in_def key_in_items
              getitem_def)
    qed
  qed
qed

lemma data_frames_Cons:
  "data_frames (line # rest) =
     (if startswith line ''data: '' then
        (if drop 6 line = ''[DONE]'' then [] else drop 6 line # data_frames rest)
      else data_frames rest)"
  by (simp add: data_frames_def)

lemma stream_loop_structured:
  assumes "\<forall>d\<in>set (data_frames lines). structured_frame W d"
  shows "stream_loop W None lines = (expected_deltas W lines, None)"
  using assms
proof (induction lines)
  case Nil
  show ?case by (simp add: expected_deltas_def data_frames_def)
next
  case (Cons line rest)
  show ?case
  proof (cases "startswith line ''data: ''")
    case False
    with Cons show ?thesis by (simp add: data_frames_Cons expected_deltas_def)
  next
    case True
    show ?thesis
    proof (cases "drop 6 line = ''[DONE]''")
      case sentinel: True
      with True show ?thesis by (simp add: data_frames_Cons expected_deltas_def)
    next
      case payload: False
      from True payload have fr: "data_frames (line # rest) = drop 6 line # data_frames rest"
        by (simp add: data_frames_Cons)
      with Cons.prems have st: "structured_frame W (drop 6 line)"
        and "\<forall>d\<in>set (data_frames rest). structured_frame W d" by simp_all
      with Cons.IH have rest: "stream_loop W None rest = (expected_deltas W rest, None)" by simp
      show ?thesis
      proof (cases "json_loads W (drop 6 line)")
        case (Inl e)
        with st have "is_JSONDecodeError e" by (simp add: structured_frame_def)
        with Inl True payload rest fr show ?thesis by (simp add: expected_deltas_def)
      next
        case (Inr event)
        with st obtain kvs where ev: "event = PyDict kvs"
          by (cases event) (auto simp: structured_frame_def)
        from st Inr ev have "map_of kvs ''type'' = Some (PyStr ''content_block_delta'') \<longrightarrow>
             (case map_of kvs ''delta'' of
                None \<Rightarrow> True | Some (PyDict d) \<Rightarrow> True | Some _ \<Rightarrow> False)"
          by (auto simp: structured_frame_def)
        from on_event_structured[OF this, of W] have "on_event W event = Inr (delta_text event)"
          using ev by simp
        with Inr True payload rest fr show ?thesis by (simp add: expected_deltas_def)
      qed
    qed
  qed
qed

text \<open>
  C8. For a response of status 200 that is read without a transport error, and in which every
  \<open>data: \<close> payload before the sentinel either fails to decode as JSON or decodes to an
  object (whose \<open>delta\<close>, when the object is a content-delta event, is an object too), the
  client yields exactly the \<open>delta.text\<close> values of the content-delta events that arrive
  before \<open>[DONE]\<close>, in arrival order and unchanged; the payloads that fail to decode are
  skipped.
\<close>

theorem stream_deltas:
  assumes "api_key a \<noteq> []"
    and "stream_post W (ask_request a question) = Inr resp"
    and "status_code resp = 200" and "aiter_end resp = None"
    and "\<forall>d\<in>set (data_frames (aiter_lines resp)). structured_frame W d"
  shows "ask W a question = (expected_deltas W (aiter_lines resp), [ask_request a question])"
  using assms(1-4) stream_loop_structured[OF assms(5)]
  by (simp add: ask_def Let_def)

theorem stream_deltas_witness:
  "ask world1 (ai app0) ''how do I list files'' =
     ([PyStr ''hi''], [ask_request (ai app0) ''how do I list files''])"
proof -
  let ?resp = "\<lparr>status_code = 200, aread = Inr [],
       aiter_lines = [''event: content_block_delta'', ''data: {bad'', ''data: '' @ hi_payload,
                      [], ''data: [DONE]'', ''data: '' @ hi_payload],
       aiter_end = None\<rparr>"
  have k: "api_key (ai app0) \<noteq> []"
    by (simp add: app0_def DreyCLI_init_def AIAssistant_init_def)
  have p: "stream_post world1 (ask_request (ai app0) ''how do I list files'') = Inr ?resp"
    by (simp add: world1_def)
  have s: "status_code ?resp = 200" "aiter_end ?resp = None" by simp_all
  have f: "\<forall>d\<in>set (data_frames (aiter_lines ?resp)). structured_frame world1 d"
    by code_simp
  have e: "expected_deltas world1 (aiter_lines ?resp) = [PyStr ''hi'']"
    by code_simp
  from stream_deltas[OF k p s f] show ?thesis unfolding e .
qed

theorem stream_non_object_counterexample:
  "fst (ask world0 (ai app0) ''how do I list files'') =
     [PyStr (warning_sign @ ''  Error: object has no attribute get\<newline>'')]
   \<and> fst (ask world0 (ai app0) ''how do I list files'') \<noteq> [PyStr ''hi'']"
proof -
  have "fst (ask world0 (ai app0) ''how do I list files'') =
     [PyStr (warning_sign @ ''  Error: object has no attribute get\<newline>'')]"
    by code_simp
  then show ?thesis by (simp add: warning_sign_def)
qed

end
